theory Spec2Isabelle
  imports Main "HOL-Library.Sublist"
begin

section \<open>nsist/copymodules.py: locating and staging importable modules\<close>

text \<open>
  A shallow embedding of \<^verbatim>\<open>src/nsist/copymodules.py\<close>. Python strings are
  \<^typ>\<open>string\<close>; every \<^verbatim>\<open>raise\<close>, failed \<^verbatim>\<open>assert\<close> and failing library
  call is a value \<open>Inl e\<close> of the result type \<open>pyerr + 'a\<close>.
\<close>

subsection \<open>Exceptions\<close>

datatype pyerr =
    ExtensionModuleMismatch string string
  | ImportError string
  | NameError string
  | AssertionError
  | ValueError
  | KeyError string
  | ZipImportError
  | BadZipFile
  | FileNotFoundError string
  | FileExistsError string
  | NotADirectoryError string
  | IsADirectoryError string
  | SameFileError string

subsection \<open>String methods\<close>

definition startswith :: "string \<Rightarrow> string \<Rightarrow> bool" where
  "startswith s p = (take (length p) s = p)"

definition endswith :: "string \<Rightarrow> string \<Rightarrow> bool" where
  "endswith s p = (length p \<le> length s \<and> drop (length s - length p) s = p)"

subsection \<open>Path functions of \<^verbatim>\<open>os.path\<close> (POSIX flavour)\<close>

text \<open>
  The library functions the module calls, on strings as the code has them.
  \<open>split_on c s\<close> is \<^verbatim>\<open>s.split(c)\<close> and \<open>sep_join\<close> is \<^verbatim>\<open>'/'.join\<close>.
\<close>

fun split_on :: "char \<Rightarrow> string \<Rightarrow> string list" where
  "split_on c [] = [[]]"
| "split_on c (x # xs) =
     (if x = c then [] # split_on c xs
      else (case split_on c xs of
              [] \<Rightarrow> [[x]]
            | h # t \<Rightarrow> (x # h) # t))"

fun sep_join :: "string list \<Rightarrow> string" where
  "sep_join [] = []"
| "sep_join [c] = c"
| "sep_join (c # d # cs) = c @ CHR ''/'' # sep_join (d # cs)"

text \<open>The components of a path: the pieces between separators, without the empty
  ones and without \<^verbatim>\<open>.\<close> (as \<^verbatim>\<open>commonpath\<close> computes them).\<close>

definition components :: "string \<Rightarrow> string list" where
  "components p = filter (\<lambda>c. c \<noteq> [] \<and> c \<noteq> ''.'') (split_on CHR ''/'' p)"

definition isabs :: "string \<Rightarrow> bool" where
  "isabs p = (take 1 p = ''/'')"

text \<open>\<^verbatim>\<open>os.path.join(a, b)\<close>; with three arguments the code's call is
  \<open>join2 (join2 a b) c\<close>.\<close>

definition join2 :: "string \<Rightarrow> string \<Rightarrow> string" where
  "join2 a b =
     (if take 1 b = ''/'' then b
      else if a = [] \<or> last a = CHR ''/'' then a @ b
      else a @ ''/'' @ b)"

definition basename :: "string \<Rightarrow> string" where
  "basename p = rev (takeWhile (\<lambda>c. c \<noteq> CHR ''/'') (rev p))"

definition rstrip_sep :: "string \<Rightarrow> string" where
  "rstrip_sep p = rev (dropWhile (\<lambda>c. c = CHR ''/'') (rev p))"

text \<open>\<^verbatim>\<open>os.path.split\<close>: the head loses its trailing separators unless it
  consists of separators only.\<close>

definition os_path_split :: "string \<Rightarrow> string \<times> string" where
  "os_path_split p =
     (let tail = basename p;
          head = take (length p - length tail) p
      in (if head \<noteq> [] \<and> (\<exists>c \<in> set head. c \<noteq> CHR ''/'') then rstrip_sep head else head,
          tail))"

text \<open>\<^verbatim>\<open>os.path.splitext\<close>: the extension starts at the last dot of the last
  component, unless only dots precede that dot.\<close>

definition splitext :: "string \<Rightarrow> string \<times> string" where
  "splitext p =
     (let b = basename p;
          ext = CHR ''.'' # rev (takeWhile (\<lambda>c. c \<noteq> CHR ''.'') (rev b));
          stem = take (length b - length ext) b
      in if CHR ''.'' \<in> set b \<and> (\<exists>c \<in> set stem. c \<noteq> CHR ''.'')
         then (take (length p - length ext) p, ext)
         else (p, []))"

text \<open>\<^verbatim>\<open>os.path.commonpath\<close>: the longest common sub-path, by components. It
  raises \<^verbatim>\<open>ValueError\<close> on an empty sequence and on a mix of absolute and relative
  paths.\<close>

fun common_all :: "string list list \<Rightarrow> string list" where
  "common_all [] = []"
| "common_all [c] = c"
| "common_all (c # cs) = longest_common_prefix c (common_all cs)"

definition commonpath :: "string list \<Rightarrow> pyerr + string" where
  "commonpath paths =
     (if paths = [] then Inl ValueError
      else if \<exists>p \<in> set paths. isabs p \<noteq> isabs (hd paths) then Inl ValueError
      else Inr ((if isabs (hd paths) then ''/'' else []) @
                sep_join (common_all (map components paths))))"

subsection \<open>The filesystem\<close>

text \<open>
  A filesystem is a tree: a file with its content, or a directory with its entries in
  listing order. A path string names the node reached from the root along its
  components; the model has no symbolic links and no \<^verbatim>\<open>..\<close> entries, and the
  working directory is the root. What depends on links or on the working directory
  (\<^verbatim>\<open>realpath\<close>, \<^verbatim>\<open>abspath\<close>, \<^verbatim>\<open>relpath\<close>, \<^verbatim>\<open>samefile\<close>) is a field of the
  environment below. Failures that depend on the machine (permissions, a full disk)
  are not modelled; the failures that depend on what exists are.
\<close>

datatype node = File string | Dir "(string \<times> node) list"

fun is_dir :: "node \<Rightarrow> bool" where
  "is_dir (Dir es) = True"
| "is_dir (File c) = False"

fun lookup :: "node \<Rightarrow> string list \<Rightarrow> node option" where
  "lookup n [] = Some n"
| "lookup (File c) (x # xs) = None"
| "lookup (Dir es) (x # xs) =
     (case map_of es x of None \<Rightarrow> None | Some n \<Rightarrow> lookup n xs)"

text \<open>Replacing an entry of a listing in place, or appending a new one.\<close>

fun set_entry :: "string \<Rightarrow> node \<Rightarrow> (string \<times> node) list \<Rightarrow> (string \<times> node) list" where
  "set_entry x n [] = [(x, n)]"
| "set_entry x n ((y, m) # es) =
     (if x = y then (x, n) # es else (y, m) # set_entry x n es)"

text \<open>\<open>put t xs n\<close> stores \<open>n\<close> at the path \<open>xs\<close>, creating the missing
  directories on the way (as \<^verbatim>\<open>os.makedirs\<close> does); \<open>None\<close> when a file is in
  the way.\<close>

fun put :: "node \<Rightarrow> string list \<Rightarrow> node \<Rightarrow> node option" where
  "put t [] n = Some n"
| "put (File c) (x # xs) n = None"
| "put (Dir es) (x # xs) n =
     (case put (case map_of es x of None \<Rightarrow> Dir [] | Some m \<Rightarrow> m) xs n of
        None \<Rightarrow> None
      | Some m' \<Rightarrow> Some (Dir (set_entry x m' es)))"

fun remove :: "node \<Rightarrow> string list \<Rightarrow> node option" where
  "remove t [] = None"
| "remove (File c) (x # xs) = None"
| "remove (Dir es) [x] =
     (if map_of es x = None then None else Some (Dir (filter (\<lambda>e. fst e \<noteq> x) es)))"
| "remove (Dir es) (x # y # ys) =
     (case map_of es x of
        None \<Rightarrow> None
      | Some m \<Rightarrow> (case remove m (y # ys) of
                     None \<Rightarrow> None
                   | Some m' \<Rightarrow> Some (Dir (set_entry x m' es))))"

subsection \<open>The world the module runs in\<close>

text \<open>
  The events record what the module did on behalf of the caller: the units for which
  a copy into the target completed, and the writes of the placeholder. They are
  appended by the model and never read by it.
\<close>

datatype event = CopiedUnit string | WrotePlaceholder string

record world =
  root :: node
  tmp_count :: nat
  events :: "event list"

text \<open>The outcome of a sequence of actions: the exception that ended it, if any, and
  the world it leaves behind (an exception undoes nothing).\<close>

type_synonym run = "pyerr option \<times> world"

definition prim :: "world \<Rightarrow> pyerr + world \<Rightarrow> run" where
  "prim w r = (case r of Inl e \<Rightarrow> (Some e, w) | Inr w' \<Rightarrow> (None, w'))"

definition and_then :: "run \<Rightarrow> (world \<Rightarrow> run) \<Rightarrow> run" where
  "and_then r f = (case r of (None, w) \<Rightarrow> f w | (Some e, w) \<Rightarrow> (Some e, w))"

definition note_event :: "event \<Rightarrow> world \<Rightarrow> run" where
  "note_event ev w = (None, w\<lparr>events := events w @ [ev]\<rparr>)"

text \<open>A loader found by \<^verbatim>\<open>importlib.machinery.PathFinder.find_spec\<close>, with what
  the module asks of it: \<^verbatim>\<open>loader.path\<close>, \<^verbatim>\<open>loader.get_filename(modname)\<close>,
  \<^verbatim>\<open>loader.archive\<close> and \<^verbatim>\<open>loader.is_package(modname)\<close>.\<close>

record zipimporter =
  archive :: string
  zip_filename :: string
  zip_is_package :: bool

datatype loader =
    ExtensionFileLoader string bool
  | FileLoader string bool
  | Zipimporter zipimporter
  | OtherLoader bool

datatype modspec = ModuleSpec "loader option"

text \<open>
  What the module takes from outside: the interpreter (\<^verbatim>\<open>running_python\<close>,
  \<^verbatim>\<open>sys.path\<close>), the import system, the parts of \<^verbatim>\<open>os.path\<close> that depend on
  links and on the working directory, the archives, the names \<^verbatim>\<open>mkdtemp\<close> picks,
  and \<^verbatim>\<open>normalize_path\<close>, imported from \<^verbatim>\<open>nsist/util.py\<close>, which is not among
  the sources.
\<close>

record env =
  running_python :: string
  sys_path :: "string list"
  find_spec :: "string \<Rightarrow> string list \<Rightarrow> modspec option"
  abspath_realpath :: "string \<Rightarrow> string"
  relpath :: "string \<Rightarrow> string \<Rightarrow> string"
  samefile :: "string \<Rightarrow> string \<Rightarrow> pyerr + bool"
  normalize_path :: "string \<Rightarrow> string"
  zip_members :: "string \<Rightarrow> (string \<times> string) list option"
  temp_name :: "nat \<Rightarrow> string"

subsection \<open>Library calls on the filesystem\<close>

definition os_listdir :: "world \<Rightarrow> string \<Rightarrow> pyerr + string list" where
  "os_listdir w p =
     (case lookup (root w) (components p) of
        None \<Rightarrow> Inl (FileNotFoundError p)
      | Some (File c) \<Rightarrow> Inl (NotADirectoryError p)
      | Some (Dir es) \<Rightarrow> Inr (map fst es))"

text \<open>\<^verbatim>\<open>os.walk\<close>, top down: a directory, the names of its subdirectories and of
  its files, then the walks of the subdirectories. A top that is no directory yields
  nothing.\<close>

fun walk_node :: "string \<Rightarrow> node \<Rightarrow> (string \<times> string list \<times> string list) list" where
  "walk_node topdir (File c) = []"
| "walk_node topdir (Dir es) =
     (topdir, map fst (filter (\<lambda>e. is_dir (snd e)) es),
              map fst (filter (\<lambda>e. \<not> is_dir (snd e)) es))
     # concat (map (\<lambda>e. walk_node (join2 topdir (fst e)) (snd e)) es)"

definition os_walk :: "world \<Rightarrow> string \<Rightarrow> (string \<times> string list \<times> string list) list" where
  "os_walk w p =
     (case lookup (root w) (components p) of None \<Rightarrow> [] | Some n \<Rightarrow> walk_node p n)"

text \<open>\<^verbatim>\<open>open(p, 'w')\<close> followed by one \<^verbatim>\<open>write\<close>: the parent must be a
  directory and \<open>p\<close> must not be one.\<close>

definition write_file :: "string \<Rightarrow> string \<Rightarrow> world \<Rightarrow> pyerr + world" where
  "write_file p c w =
     (let xs = components p in
      case lookup (root w) xs of
        Some (Dir es) \<Rightarrow> Inl (IsADirectoryError p)
      | _ \<Rightarrow>
          (case lookup (root w) (butlast xs) of
             None \<Rightarrow> Inl (FileNotFoundError p)
           | Some (File d) \<Rightarrow> Inl (NotADirectoryError p)
           | Some (Dir es) \<Rightarrow>
               (case put (root w) xs (File c) of
                  None \<Rightarrow> Inl (NotADirectoryError p)
                | Some r \<Rightarrow> Inr (w\<lparr>root := r\<rparr>))))"

text \<open>\<^verbatim>\<open>shutil.copy2(src, dst)\<close>: into \<open>dst\<close> under the name of \<open>src\<close> when
  \<open>dst\<close> is a directory, else onto \<open>dst\<close>.\<close>

definition shutil_copy2 :: "string \<Rightarrow> string \<Rightarrow> world \<Rightarrow> pyerr + world" where
  "shutil_copy2 src dst w =
     (let dst' = (case lookup (root w) (components dst) of
                    Some (Dir es) \<Rightarrow> join2 dst (basename src)
                  | _ \<Rightarrow> dst)
      in case lookup (root w) (components src) of
           None \<Rightarrow> Inl (FileNotFoundError src)
         | Some (Dir es) \<Rightarrow> Inl (IsADirectoryError src)
         | Some (File c) \<Rightarrow>
             (if components src = components dst' then Inl (SameFileError src)
              else write_file dst' c w))"

text \<open>\<^verbatim>\<open>shutil.copytree(src, dst, ignore=ig)\<close>. In every directory visited the
  callback gets the directory's path and the names in it, and the names it returns
  are left out; \<open>dst\<close> must not exist and is created with its parents.\<close>

fun filter_copy :: "(string \<Rightarrow> string list \<Rightarrow> string list) \<Rightarrow> string \<Rightarrow> node \<Rightarrow> node" where
  "filter_copy ig src (File c) = File c"
| "filter_copy ig src (Dir es) =
     Dir (map (\<lambda>e. (fst e, filter_copy ig (join2 src (fst e)) (snd e)))
            (filter (\<lambda>e. fst e \<notin> set (ig src (map fst es))) es))"

definition no_ignore :: "string \<Rightarrow> string list \<Rightarrow> string list" where
  "no_ignore d names = []"

definition shutil_copytree ::
  "(string \<Rightarrow> string list \<Rightarrow> string list) \<Rightarrow> string \<Rightarrow> string \<Rightarrow> world \<Rightarrow> pyerr + world" where
  "shutil_copytree ig src dst w =
     (case lookup (root w) (components src) of
        None \<Rightarrow> Inl (FileNotFoundError src)
      | Some (File c) \<Rightarrow> Inl (NotADirectoryError src)
      | Some (Dir es) \<Rightarrow>
          (if lookup (root w) (components dst) \<noteq> None then Inl (FileExistsError dst)
           else case put (root w) (components dst) (filter_copy ig src (Dir es)) of
                  None \<Rightarrow> Inl (NotADirectoryError dst)
                | Some r \<Rightarrow> Inr (w\<lparr>root := r\<rparr>)))"

definition shutil_rmtree :: "string \<Rightarrow> world \<Rightarrow> pyerr + world" where
  "shutil_rmtree p w =
     (case lookup (root w) (components p) of
        None \<Rightarrow> Inl (FileNotFoundError p)
      | Some (File c) \<Rightarrow> Inl (NotADirectoryError p)
      | Some (Dir es) \<Rightarrow>
          (case remove (root w) (components p) of
             None \<Rightarrow> Inl (NotADirectoryError p)
           | Some r \<Rightarrow> Inr (w\<lparr>root := r\<rparr>)))"

text \<open>\<^verbatim>\<open>tempfile.mkdtemp()\<close>: a new, empty directory; its name is the
  environment's choice.\<close>

definition tempfile_mkdtemp :: "env \<Rightarrow> world \<Rightarrow> pyerr + string \<times> world" where
  "tempfile_mkdtemp env w =
     (let d = temp_name env (tmp_count w) in
      if lookup (root w) (components d) \<noteq> None then Inl (FileExistsError d)
      else case put (root w) (components d) (Dir []) of
             None \<Rightarrow> Inl (NotADirectoryError d)
           | Some r \<Rightarrow> Inr (d, w\<lparr>root := r, tmp_count := Suc (tmp_count w)\<rparr>))"

text \<open>\<^verbatim>\<open>zipfile.ZipFile(archive)\<close> gives the members, names with contents;
  \<^verbatim>\<open>extract\<close> writes one member below a directory, dropping empty, \<^verbatim>\<open>.\<close> and
  \<^verbatim>\<open>..\<close> pieces of its name; a name ending in a separator is a directory.\<close>

definition zipfile_ZipFile :: "env \<Rightarrow> string \<Rightarrow> pyerr + (string \<times> string) list" where
  "zipfile_ZipFile env a =
     (case zip_members env a of None \<Rightarrow> Inl BadZipFile | Some ms \<Rightarrow> Inr ms)"

definition zip_extract :: "(string \<times> string) list \<Rightarrow> string \<Rightarrow> string \<Rightarrow> world \<Rightarrow> pyerr + world" where
  "zip_extract zf member path w =
     (case map_of zf member of
        None \<Rightarrow> Inl (KeyError member)
      | Some content \<Rightarrow>
          (let xs = components path @
                    filter (\<lambda>c. c \<noteq> [] \<and> c \<noteq> ''.'' \<and> c \<noteq> ''..'') (split_on CHR ''/'' member)
           in case lookup (root w) xs of
                Some (Dir es) \<Rightarrow>
                  (if endswith member ''/'' then Inr w else Inl (IsADirectoryError member))
              | Some (File c) \<Rightarrow>
                  (if endswith member ''/'' then Inl (FileExistsError member)
                   else case put (root w) xs (File content) of
                          None \<Rightarrow> Inl (NotADirectoryError member)
                        | Some r \<Rightarrow> Inr (w\<lparr>root := r\<rparr>))
              | None \<Rightarrow>
                  (case put (root w) xs (if endswith member ''/'' then Dir [] else File content) of
                     None \<Rightarrow> Inl (NotADirectoryError member)
                   | Some r \<Rightarrow> Inr (w\<lparr>root := r\<rparr>))))"

fun zip_extractall :: "(string \<times> string) list \<Rightarrow> string list \<Rightarrow> string \<Rightarrow> world \<Rightarrow> run" where
  "zip_extractall zf [] path w = (None, w)"
| "zip_extractall zf (m # ms) path w =
     (case zip_extract zf m path w of
        Inl e \<Rightarrow> (Some e, w)
      | Inr w' \<Rightarrow> zip_extractall zf ms path w')"

subsection \<open>Shell patterns of \<^verbatim>\<open>fnmatch\<close>\<close>

text \<open>
  \<^verbatim>\<open>fnmatch.filter(names, pat)\<close> keeps the names the pattern matches as a whole:
  \<^verbatim>\<open>*\<close> matches any run of characters, separators included, \<^verbatim>\<open>?\<close> any
  one character, \<^verbatim>\<open>[seq]\<close> and \<^verbatim>\<open>[!seq]\<close> a character in or not in
  \<open>seq\<close>, where \<^verbatim>\<open>a-c\<close> is a range; a bracket that is never closed is
  literal. Case is kept, as on POSIX.
\<close>

definition split_class :: "string \<Rightarrow> (string \<times> string) option" where
  "split_class ps =
     (let a = (if take 1 ps = ''!'' then ''!'' else []);
          r1 = drop (length a) ps;
          b = (if take 1 r1 = '']'' then '']'' else []);
          r2 = drop (length b) r1;
          body = takeWhile (\<lambda>c. c \<noteq> CHR '']'') r2;
          r3 = drop (length body) r2
      in if r3 = [] then None else Some (a @ b @ body, tl r3))"

fun in_items :: "char \<Rightarrow> string \<Rightarrow> bool" where
  "in_items c (lo # m # hi # rest) =
     (if m = CHR ''-''
      then ((of_char lo :: nat) \<le> of_char c \<and> (of_char c :: nat) \<le> of_char hi) \<or> in_items c rest
      else c = lo \<or> in_items c (m # hi # rest))"
| "in_items c (x # rest) = (c = x \<or> in_items c rest)"
| "in_items c [] = False"

definition in_class :: "char \<Rightarrow> string \<Rightarrow> bool" where
  "in_class c stuff =
     (if take 1 stuff = ''!'' then \<not> in_items c (tl stuff) else in_items c stuff)"

function fnmatchcase :: "string \<Rightarrow> string \<Rightarrow> bool" where
  "fnmatchcase s [] = (s = [])"
| "fnmatchcase s (p # ps) =
     (if p = CHR ''*''
      then fnmatchcase s ps \<or> (case s of [] \<Rightarrow> False | c # cs \<Rightarrow> fnmatchcase cs (p # ps))
      else (case s of
              [] \<Rightarrow> False
            | c # cs \<Rightarrow>
                if p = CHR ''?'' then fnmatchcase cs ps
                else if p = CHR ''[''
                then (case split_class ps of
                        None \<Rightarrow> c = CHR ''['' \<and> fnmatchcase cs ps
                      | Some (stuff, rest) \<Rightarrow> in_class c stuff \<and> fnmatchcase cs rest)
                else c = p \<and> fnmatchcase cs ps))"
  by pat_completeness auto
termination
  by (relation "measure (\<lambda>(s, p). length s + length p)")
     (auto simp: split_class_def Let_def split: if_splits)

definition fnmatch_filter :: "string list \<Rightarrow> string \<Rightarrow> string list" where
  "fnmatch_filter names pat = filter (\<lambda>n. fnmatchcase n pat) names"

text \<open>\<^verbatim>\<open>shutil.ignore_patterns(*patterns)\<close>: the callback that ignores the names
  matching one of the patterns.\<close>

definition ignore_patterns :: "string list \<Rightarrow> string \<Rightarrow> string list \<Rightarrow> string list" where
  "ignore_patterns patterns d names = concat (map (fnmatch_filter names) patterns)"

subsection \<open>Checking extension modules\<close>

text \<open>
  \<^verbatim>\<open>running_python\<close> is the module-level constant
  \<^verbatim>\<open>'.'.join(str(x) for x in sys.version_info[:2])\<close>; it depends on the interpreter
  running the build and is the first argument of the model.
  \<^verbatim>\<open>
  def check_ext_mod(path, target_python):
      if path.endswith('.so'):
          raise ExtensionModuleMismatch(extensionmod_errmsg % ('Windows', path))
      elif path.endswith('.pyd') and not target_python.startswith(running_python):
          raise ExtensionModuleMismatch(extensionmod_errmsg % ('Python '+target_python, path))
  \<close>
  The two arguments of the error are the two values substituted into the message.
\<close>

definition check_ext_mod :: "string \<Rightarrow> string \<Rightarrow> string \<Rightarrow> pyerr + unit" where
  "check_ext_mod running path target_python =
     (if endswith path ''.so''
      then Inl (ExtensionModuleMismatch ''Windows'' path)
      else if endswith path ''.pyd'' \<and> \<not> startswith target_python running
      then Inl (ExtensionModuleMismatch (''Python '' @ target_python) path)
      else Inr ())"

text \<open>
  \<^verbatim>\<open>
  def check_package_for_ext_mods(path, target_python, ignore=None):
      ignore = ignore or []
      for dirpath, dirnames, filenames in os.walk(path):
          formattedPath = os.path.abspath(os.path.realpath(os.path.join(path, dirpath)))
          if (ignore):
              if (any(os.path.commonpath([item]) == os.path.commonpath([item, formattedPath])
                      for item in ignore)):
                  continue
          for filename in filenames:
              check_ext_mod(os.path.join(formattedPath, filename), target_python)
  \<close>
  \<open>any_contains\<close> is the \<^verbatim>\<open>any(...)\<close> over the generator, which stops at the
  first true item and lets an exception of \<^verbatim>\<open>commonpath\<close> through;
  \<open>check_files\<close> is the inner loop and \<open>check_dirs\<close> the outer one. The ignore
  entries are a list, in the order the iteration visits them.
\<close>

fun any_contains :: "string list \<Rightarrow> string \<Rightarrow> pyerr + bool" where
  "any_contains [] formattedPath = Inr False"
| "any_contains (item # items) formattedPath =
     (case commonpath [item] of
        Inl e \<Rightarrow> Inl e
      | Inr a \<Rightarrow>
          (case commonpath [item, formattedPath] of
             Inl e \<Rightarrow> Inl e
           | Inr b \<Rightarrow> if a = b then Inr True else any_contains items formattedPath))"

fun check_files :: "string \<Rightarrow> string \<Rightarrow> string \<Rightarrow> string list \<Rightarrow> pyerr + unit" where
  "check_files running target_python formattedPath [] = Inr ()"
| "check_files running target_python formattedPath (filename # filenames) =
     (case check_ext_mod running (join2 formattedPath filename) target_python of
        Inl e \<Rightarrow> Inl e
      | Inr u \<Rightarrow> check_files running target_python formattedPath filenames)"

fun check_dirs ::
  "env \<Rightarrow> string \<Rightarrow> string \<Rightarrow> string list \<Rightarrow> (string \<times> string list \<times> string list) list
     \<Rightarrow> pyerr + unit" where
  "check_dirs env path target_python ignore [] = Inr ()"
| "check_dirs env path target_python ignore ((dirpath, dirnames, filenames) # rest) =
     (let formattedPath = abspath_realpath env (join2 path dirpath) in
      case (if ignore \<noteq> [] then any_contains ignore formattedPath else Inr False) of
        Inl e \<Rightarrow> Inl e
      | Inr True \<Rightarrow> check_dirs env path target_python ignore rest
      | Inr False \<Rightarrow>
          (case check_files (running_python env) target_python formattedPath filenames of
             Inl e \<Rightarrow> Inl e
           | Inr u \<Rightarrow> check_dirs env path target_python ignore rest))"

definition check_package_for_ext_mods ::
  "env \<Rightarrow> string \<Rightarrow> string \<Rightarrow> string list option \<Rightarrow> world \<Rightarrow> pyerr + unit" where
  "check_package_for_ext_mods env path target_python ignore w =
     (let ignore = (case ignore of None \<Rightarrow> [] | Some items \<Rightarrow> items)
      in check_dirs env path target_python ignore (os_walk w path))"

subsection \<open>Joining paths\<close>

text \<open>
  \<^verbatim>\<open>
  def pjoin(*args, **kwargs):
      newPath = ensurePathFormat(os.path.join(*args, **kwargs))
      return newPath

  def ensurePathFormat(oldPath):
      newPath = re.sub("[/\\\\](?!\\\\)", "\\\\\\\\", oldPath)
      return newPath
  \<close>
  The body of \<^verbatim>\<open>ensurePathFormat\<close> first looks the name \<^verbatim>\<open>re\<close> up among the
  globals of the module. \<open>module_globals\<close> lists the names the module binds: what
  its \<^verbatim>\<open>import\<close> statements (lines 1 to 12) bring in and what it defines itself.
  \<open>sub_separators\<close> is the substitution the call asks for: every \<^verbatim>\<open>/\<close> or
  backslash that no backslash follows becomes two backslashes.
\<close>

definition module_globals :: "string list" where
  "module_globals =
     [''importlib'', ''os'', ''shutil'', ''sys'', ''tempfile'', ''zipfile'', ''zipimport'',
      ''fnmatch'', ''partial'', ''normalize_path'', ''PY2'', ''running_python'',
      ''ExtensionModuleMismatch'', ''pjoin'', ''ensurePathFormat'', ''extensionmod_errmsg'',
      ''check_ext_mod'', ''check_package_for_ext_mods'', ''copy_zipmodule'',
      ''copytree_ignore_callback'', ''ModuleCopier'', ''copy_modules'']"

definition backslash :: char where
  "backslash = CHR 0x5C"

fun sub_separators :: "string \<Rightarrow> string" where
  "sub_separators [] = []"
| "sub_separators [c] =
     (if c = CHR ''/'' \<or> c = backslash then [backslash, backslash] else [c])"
| "sub_separators (c # d # cs) =
     (if (c = CHR ''/'' \<or> c = backslash) \<and> d \<noteq> backslash
      then backslash # backslash # sub_separators (d # cs)
      else c # sub_separators (d # cs))"

definition ensurePathFormat :: "string \<Rightarrow> pyerr + string" where
  "ensurePathFormat oldPath =
     (if ''re'' \<in> set module_globals then Inr (sub_separators oldPath)
      else Inl (NameError ''re''))"

definition pjoin :: "string \<Rightarrow> string \<Rightarrow> pyerr + string" where
  "pjoin a b = ensurePathFormat (join2 a b)"

subsection \<open>Modules in zip files\<close>

text \<open>
  \<^verbatim>\<open>
  def copy_zipmodule(loader, modname, target):
      file = loader.get_filename(modname)
      assert file.startswith(loader.archive)
      path_in_zip = file[len(loader.archive+'/'):]
      zf = zipfile.ZipFile(loader.archive)
      tempdir = tempfile.mkdtemp()
      if loader.is_package(modname):
          pkgdir, basename = os.path.split(path_in_zip)
          assert basename.startswith('__init__')
          pkgfiles = [f for f in zf.namelist() if f.startswith(pkgdir)]
          zf.extractall(tempdir, pkgfiles)
          shutil.copytree(pjoin(tempdir, pkgdir), pjoin(target, modname))
      else:
          zf.extract(path_in_zip, tempdir)
          shutil.copy2(pjoin(tempdir, path_in_zip), target)
      shutil.rmtree(tempdir)
  \<close>
  \<open>zip_package\<close> and \<open>zip_module\<close> are the two branches; the arguments of a call
  are evaluated from left to right before the call.
\<close>

definition zip_package ::
  "(string \<times> string) list \<Rightarrow> string \<Rightarrow> string \<Rightarrow> string \<Rightarrow> string \<Rightarrow> world \<Rightarrow> run" where
  "zip_package zf path_in_zip tempdir modname target w =
     (let (pkgdir, basename) = os_path_split path_in_zip in
      if \<not> startswith basename ''__init__'' then (Some AssertionError, w)
      else
        let pkgfiles = filter (\<lambda>f. startswith f pkgdir) (map fst zf) in
        and_then (zip_extractall zf pkgfiles tempdir w) (\<lambda>w.
          case pjoin tempdir pkgdir of
            Inl e \<Rightarrow> (Some e, w)
          | Inr src \<Rightarrow>
              (case pjoin target modname of
                 Inl e \<Rightarrow> (Some e, w)
               | Inr dst \<Rightarrow>
                   and_then (prim w (shutil_copytree no_ignore src dst w))
                     (note_event (CopiedUnit modname)))))"

definition zip_module ::
  "(string \<times> string) list \<Rightarrow> string \<Rightarrow> string \<Rightarrow> string \<Rightarrow> string \<Rightarrow> world \<Rightarrow> run" where
  "zip_module zf path_in_zip tempdir modname target w =
     and_then (prim w (zip_extract zf path_in_zip tempdir w)) (\<lambda>w.
       case pjoin tempdir path_in_zip of
         Inl e \<Rightarrow> (Some e, w)
       | Inr src \<Rightarrow>
           and_then (prim w (shutil_copy2 src target w)) (note_event (CopiedUnit modname)))"

definition copy_zipmodule :: "env \<Rightarrow> zipimporter \<Rightarrow> string \<Rightarrow> string \<Rightarrow> world \<Rightarrow> run" where
  "copy_zipmodule env loader modname target w =
     (let file = zip_filename loader in
      if \<not> startswith file (archive loader) then (Some AssertionError, w)
      else
        let path_in_zip = drop (length (archive loader @ ''/'')) file in
        case zipfile_ZipFile env (archive loader) of
          Inl e \<Rightarrow> (Some e, w)
        | Inr zf \<Rightarrow>
            (case tempfile_mkdtemp env w of
               Inl e \<Rightarrow> (Some e, w)
             | Inr (tempdir, w) \<Rightarrow>
                 and_then
                   (if zip_is_package loader
                    then zip_package zf path_in_zip tempdir modname target w
                    else zip_module zf path_in_zip tempdir modname target w)
                   (\<lambda>w. prim w (shutil_rmtree tempdir w))))"

subsection \<open>The exclusion callback\<close>

text \<open>
  \<^verbatim>\<open>
  def copytree_ignore_callback(excludes, pkgdir, modname, directory, files):
      ignored = set()
      reldir = os.path.relpath(directory, pkgdir)
      target = os.path.join('pkgs', modname, reldir)
      files = [normalize_path(os.path.join(target, fname)) for fname in files]
      for pattern in excludes + ['*.pyc']:
          ignored.update([
              os.path.basename(fname)
              for fname in fnmatch.filter(files, pattern)
          ])
      return ignored
  \<close>
  The set returned is only asked for membership; it is the list of its elements here.
\<close>

definition copytree_ignore_callback ::
  "env \<Rightarrow> string list \<Rightarrow> string \<Rightarrow> string \<Rightarrow> string \<Rightarrow> string list \<Rightarrow> string list" where
  "copytree_ignore_callback env excludes pkgdir modname directory files =
     (let reldir = relpath env directory pkgdir;
          target = join2 (join2 ''pkgs'' modname) reldir;
          files = map (\<lambda>fname. normalize_path env (join2 target fname)) files
      in concat (map (\<lambda>pattern. map basename (fnmatch_filter files pattern))
                   (excludes @ [''*.pyc''])))"

subsection \<open>Copying one unit\<close>

text \<open>
  \<^verbatim>\<open>
  class ModuleCopier:
      def __init__(self, py_version, path=None):
          self.py_version = py_version
          self.path = path if (path is not None) else ([''] + sys.path)
  \<close>
\<close>

record modulecopier =
  self_py_version :: string
  self_path :: "string list"

definition ModuleCopier_init :: "env \<Rightarrow> string \<Rightarrow> string list option \<Rightarrow> modulecopier" where
  "ModuleCopier_init env pyv p =
     \<lparr>self_py_version = pyv,
      self_path = (case p of Some ps \<Rightarrow> ps | None \<Rightarrow> [] # sys_path env)\<rparr>"

text \<open>
  The \<^verbatim>\<open>for ... else\<close> that picks the destination of a package:
  \<^verbatim>\<open>
  for key, value in packages_extraPath.items():
      if (os.path.samefile(key, pkgdir)):
          dest = os.path.join(target, value, modname)
          break
  else:
      dest = os.path.join(target, modname)
  \<close>
  The dictionary is the list of its items in iteration order.
\<close>

fun find_dest ::
  "env \<Rightarrow> (string \<times> string) list \<Rightarrow> string \<Rightarrow> string \<Rightarrow> string \<Rightarrow> pyerr + string" where
  "find_dest env [] pkgdir target modname = Inr (join2 target modname)"
| "find_dest env ((key, val) # items) pkgdir target modname =
     (case samefile env key pkgdir of
        Inl e \<Rightarrow> Inl e
      | Inr True \<Rightarrow> Inr (join2 (join2 target val) modname)
      | Inr False \<Rightarrow> find_dest env items pkgdir target modname)"

text \<open>
  \<^verbatim>\<open>ModuleCopier.copy(modname, target, exclude, packages_extraPath,
  packages_ignorePath)\<close>. An absent (\<^verbatim>\<open>None\<close>) list or dictionary and an empty
  one take the same branches everywhere, so both are the empty list. The
  \<^verbatim>\<open>isinstance\<close> tests are the cases of the loader, in the order of the code; a
  loader of another class falls through all of them and nothing is done.
\<close>

definition copy_package ::
  "env \<Rightarrow> modulecopier \<Rightarrow> string \<Rightarrow> string \<Rightarrow> string list \<Rightarrow> (string \<times> string) list
     \<Rightarrow> (string \<times> string list) list \<Rightarrow> string \<Rightarrow> world \<Rightarrow> run" where
  "copy_package env mc modname target exclude packages_extraPath packages_ignorePath file w =
     (let (pkgdir, basename) = os_path_split file in
      if \<not> startswith basename ''__init__'' then (Some AssertionError, w)
      else
        case check_package_for_ext_mods env pkgdir (self_py_version mc)
               (map_of packages_ignorePath modname) w of
          Inl e \<Rightarrow> (Some e, w)
        | Inr u \<Rightarrow>
            (case find_dest env packages_extraPath pkgdir target modname of
               Inl e \<Rightarrow> (Some e, w)
             | Inr dest \<Rightarrow>
                 and_then
                   (prim w
                      (if exclude \<noteq> []
                       then shutil_copytree
                              (copytree_ignore_callback env exclude pkgdir modname) pkgdir dest w
                       else shutil_copytree (ignore_patterns [''*.pyc'']) pkgdir dest w))
                   (note_event (CopiedUnit modname))))"

definition ModuleCopier_copy ::
  "env \<Rightarrow> modulecopier \<Rightarrow> string \<Rightarrow> string \<Rightarrow> string list \<Rightarrow> (string \<times> string) list
     \<Rightarrow> (string \<times> string list) list \<Rightarrow> world \<Rightarrow> run" where
  "ModuleCopier_copy env mc modname target exclude packages_extraPath packages_ignorePath w =
     (case find_spec env modname (self_path mc) of
        None \<Rightarrow> (Some (ImportError (''Could not find '' @ modname)), w)
      | Some (ModuleSpec None) \<Rightarrow>
          (Some (ImportError (''Cannot bundle namespace package '' @ modname)), w)
      | Some (ModuleSpec (Some loader)) \<Rightarrow>
          (case loader of
             ExtensionFileLoader lpath pkg \<Rightarrow>
               (case check_ext_mod (running_python env) lpath (self_py_version mc) of
                  Inl e \<Rightarrow> (Some e, w)
                | Inr u \<Rightarrow>
                    and_then (prim w (shutil_copy2 lpath target w))
                      (note_event (CopiedUnit modname)))
           | FileLoader file pkg \<Rightarrow>
               (if pkg
                then copy_package env mc modname target exclude packages_extraPath
                       packages_ignorePath file w
                else and_then (prim w (shutil_copy2 file target w))
                       (note_event (CopiedUnit modname)))
           | Zipimporter z \<Rightarrow> copy_zipmodule env z modname target w
           | OtherLoader pkg \<Rightarrow> (None, w)))"

subsection \<open>Copying a list of units\<close>

text \<open>
  \<^verbatim>\<open>
  def copy_modules(modnames, target, py_version, path=None, exclude=None,
                   packages_extraPath=None, packages_ignorePath=None):
      mc = ModuleCopier(py_version, path)
      files_in_target_noext = [os.path.splitext(f)[0] for f in os.listdir(target)]
      if (packages_ignorePath):
          packages_ignorePath = {key: {os.path.abspath(os.path.realpath(item)) for item in value}
                                 for key, value in packages_ignorePath.items()}
      else:
          packages_ignorePath = {}
      for modname in modnames:
          if modname in files_in_target_noext:
              continue
          mc.copy(modname, target, exclude, packages_extraPath = packages_extraPath,
                  packages_ignorePath = packages_ignorePath)
      if not modnames:
          with open(os.path.join(target, 'placeholder'), 'w') as f:
              f.write('This file only exists so NSIS finds something in this directory.')
  \<close>
  \<open>copy_loop\<close> is the \<^verbatim>\<open>for\<close> loop.
\<close>

fun copy_loop ::
  "env \<Rightarrow> modulecopier \<Rightarrow> string list \<Rightarrow> string \<Rightarrow> string list \<Rightarrow> (string \<times> string) list
     \<Rightarrow> (string \<times> string list) list \<Rightarrow> string list \<Rightarrow> world \<Rightarrow> run" where
  "copy_loop env mc files_in_target_noext target exclude extraPath ignorePath [] w = (None, w)"
| "copy_loop env mc files_in_target_noext target exclude extraPath ignorePath (modname # modnames) w =
     (if modname \<in> set files_in_target_noext
      then copy_loop env mc files_in_target_noext target exclude extraPath ignorePath modnames w
      else and_then (ModuleCopier_copy env mc modname target exclude extraPath ignorePath w)
             (copy_loop env mc files_in_target_noext target exclude extraPath ignorePath modnames))"

definition placeholder_text :: string where
  "placeholder_text = ''This file only exists so NSIS finds something in this directory.''"

definition copy_modules ::
  "env \<Rightarrow> string list \<Rightarrow> string \<Rightarrow> string \<Rightarrow> string list option \<Rightarrow> string list
     \<Rightarrow> (string \<times> string) list \<Rightarrow> (string \<times> string list) list \<Rightarrow> world \<Rightarrow> run" where
  "copy_modules env modnames target pyv p exclude packages_extraPath packages_ignorePath w =
     (let mc = ModuleCopier_init env pyv p in
      case os_listdir w target of
        Inl e \<Rightarrow> (Some e, w)
      | Inr names \<Rightarrow>
          (let files_in_target_noext = map (\<lambda>f. fst (splitext f)) names;
               packages_ignorePath =
                 map (\<lambda>(key, val). (key, remdups (map (abspath_realpath env) val)))
                   packages_ignorePath
           in and_then
                (copy_loop env mc files_in_target_noext target exclude packages_extraPath
                   packages_ignorePath modnames w)
                (\<lambda>w. if modnames = []
                      then and_then
                             (prim w (write_file (join2 target ''placeholder'') placeholder_text w))
                             (note_event (WrotePlaceholder (join2 target ''placeholder'')))
                      else (None, w))))"

section \<open>Notions used in the statements\<close>

text \<open>A normalized absolute path: a separator followed by its components, joined
  by single separators (what \<^verbatim>\<open>os.path.abspath\<close> returns).\<close>

definition norm_abs :: "string \<Rightarrow> bool" where
  "norm_abs p = (p = CHR ''/'' # sep_join (components p))"

text \<open>A path is contained in an ignore set when the components of some entry are
  the first components of the path.\<close>

definition contained :: "string list \<Rightarrow> string \<Rightarrow> bool" where
  "contained ignore p = (\<exists>item \<in> set ignore. prefix (components item) (components p))"

text \<open>A tree with a shared-object file in \<^verbatim>\<open>/a/b\<close> and another in the sibling
  \<^verbatim>\<open>/a/bexp\<close>, and an environment without links.\<close>

definition plain_env :: env where
  "plain_env =
     \<lparr>running_python = ''3.6'', sys_path = [''/lib''],
      find_spec = (\<lambda>m p. None),
      abspath_realpath = (\<lambda>p. p),
      relpath = (\<lambda>d p. if d = p then ''.'' else drop (Suc (length p)) d),
      samefile = (\<lambda>a b. Inr (components a = components b)),
      normalize_path = (\<lambda>p. p),
      zip_members = (\<lambda>a. None),
      temp_name = (\<lambda>n. ''/tmp/t'' @ replicate n CHR ''x'')\<rparr>"

definition sibling_world :: world where
  "sibling_world =
     \<lparr>root = Dir [(''a'', Dir [(''b'', Dir [(''x.so'', File ''1'')]),
                            (''bexp'', Dir [(''y.so'', File ''2'')])])],
      tmp_count = 0, events = []\<rparr>"

text \<open>The same environment with the working directory at the root:
  \<^verbatim>\<open>abspath(realpath(p))\<close> is the separator followed by the components of
  \<open>p\<close>.\<close>

definition rooted_env :: env where
  "rooted_env =
     plain_env\<lparr>abspath_realpath := (\<lambda>p. CHR ''/'' # sep_join (components p))\<rparr>"

text \<open>\<^verbatim>\<open>os.path.isdir\<close>.\<close>

definition is_directory :: "world \<Rightarrow> string \<Rightarrow> bool" where
  "is_directory w p =
     (case lookup (root w) (components p) of Some (Dir es) \<Rightarrow> True | _ \<Rightarrow> False)"

text \<open>The statements of \<^verbatim>\<open>copy_zipmodule\<close> before the first \<^verbatim>\<open>pjoin\<close> all
  return: the assertions hold, the archive opens, the scratch directory is made and
  the extraction goes through.\<close>

definition extraction_succeeds :: "env \<Rightarrow> zipimporter \<Rightarrow> world \<Rightarrow> bool" where
  "extraction_succeeds env loader w =
     (startswith (zip_filename loader) (archive loader) \<and>
      (let path_in_zip = drop (length (archive loader @ ''/'')) (zip_filename loader) in
       case zipfile_ZipFile env (archive loader) of
         Inl e \<Rightarrow> False
       | Inr zf \<Rightarrow>
           (case tempfile_mkdtemp env w of
              Inl e \<Rightarrow> False
            | Inr (tempdir, w1) \<Rightarrow>
                if zip_is_package loader
                then startswith (snd (os_path_split path_in_zip)) ''__init__'' \<and>
                     fst (zip_extractall zf
                            (filter (\<lambda>f. startswith f (fst (os_path_split path_in_zip)))
                               (map fst zf))
                            tempdir w1) = None
                else (case zip_extract zf path_in_zip tempdir w1 of
                        Inl e \<Rightarrow> False
                      | Inr w2 \<Rightarrow> True))))"

text \<open>An archive holding a module \<^verbatim>\<open>z\<close> and a package \<^verbatim>\<open>pk\<close>, and the
  loaders of the two.\<close>

definition zip_env :: env where
  "zip_env = plain_env\<lparr>zip_members :=
     (\<lambda>a. if a = ''/lib/a.zip''
          then Some [(''z.py'', ''zz''), (''pk/__init__.py'', ''i''), (''pk/c.pyc'', ''c'')]
          else None)\<rparr>"

definition zip_world :: world where
  "zip_world =
     \<lparr>root = Dir [(''lib'', Dir [(''a.zip'', File ''PK'')]), (''t'', Dir []), (''tmp'', Dir [])],
      tmp_count = 0, events = []\<rparr>"

definition z_loader :: zipimporter where
  "z_loader =
     \<lparr>archive = ''/lib/a.zip'', zip_filename = ''/lib/a.zip/z.py'', zip_is_package = False\<rparr>"

definition pk_loader :: zipimporter where
  "pk_loader =
     \<lparr>archive = ''/lib/a.zip'', zip_filename = ''/lib/a.zip/pk/__init__.py'',
      zip_is_package = True\<rparr>"

text \<open>How often the events record a copy of a unit, and how many writes of the
  placeholder they record.\<close>

definition copies :: "world \<Rightarrow> string \<Rightarrow> nat" where
  "copies w m = count_list (events w) (CopiedUnit m)"

fun is_placeholder_event :: "event \<Rightarrow> bool" where
  "is_placeholder_event (WrotePlaceholder p) = True"
| "is_placeholder_event (CopiedUnit m) = False"

definition placeholder_writes :: "world \<Rightarrow> nat" where
  "placeholder_writes w = length (filter is_placeholder_event (events w))"

text \<open>A search path with a module \<^verbatim>\<open>m\<close> and a package \<^verbatim>\<open>pk\<close>, a target
  that holds \<^verbatim>\<open>old.py\<close>, and a target that holds a directory named
  \<^verbatim>\<open>placeholder\<close>.\<close>

definition file_env :: env where
  "file_env = plain_env\<lparr>find_spec :=
     (\<lambda>m p. if m = ''m'' then Some (ModuleSpec (Some (FileLoader ''/lib/m.py'' False)))
            else if m = ''pk'' then Some (ModuleSpec (Some (FileLoader ''/lib/pk/__init__.py'' True)))
            else None)\<rparr>"

definition file_world :: world where
  "file_world =
     \<lparr>root = Dir [(''lib'', Dir [(''m.py'', File ''mm''),
                              (''pk'', Dir [(''__init__.py'', File ''i''), (''c.pyc'', File ''c''),
                                           (''sub'', Dir [(''d.pyc'', File ''d''),
                                                         (''e.py'', File ''e'')])])]),
                  (''t'', Dir [(''old.py'', File ''o'')])],
      tmp_count = 0, events = []\<rparr>"

definition dir_world :: world where
  "dir_world =
     \<lparr>root = Dir [(''t'', Dir [(''placeholder'', Dir [])])], tmp_count = 0, events = []\<rparr>"

text \<open>A tree without compiled files: no entry, at any depth, has a name ending in
  \<^verbatim>\<open>.pyc\<close>. \<open>entry_names\<close> lists the names of all entries of a tree.\<close>

fun no_pyc :: "node \<Rightarrow> bool" where
  "no_pyc (File c) = True"
| "no_pyc (Dir es) = (\<forall>e \<in> set es. \<not> endswith (fst e) ''.pyc'' \<and> no_pyc (snd e))"

fun entry_names :: "node \<Rightarrow> string list" where
  "entry_names (File c) = []"
| "entry_names (Dir es) = map fst es @ concat (map (\<lambda>e. entry_names (snd e)) es)"

text \<open>The destination of a package as the specification words it:
  \<^verbatim>\<open>target/<remap-value>/<name>\<close> when the source root of the package is the same
  file as a key of the remap (the first such key in iteration order), else
  \<^verbatim>\<open>target/<name>\<close>.\<close>

definition remap_dest :: "env \<Rightarrow> (string \<times> string) list \<Rightarrow> string \<Rightarrow> string \<Rightarrow> string \<Rightarrow> string" where
  "remap_dest env extra pkgdir target modname =
     (case find (\<lambda>(key, val). samefile env key pkgdir = Inr True) extra of
        Some (key, val) \<Rightarrow> join2 (join2 target val) modname
      | None \<Rightarrow> join2 target modname)"

section \<open>Properties\<close>

subsection \<open>String methods\<close>

lemma endswith_append: "endswith (xs @ p) p"
  by (simp add: endswith_def)

lemma endswith_iff: "endswith s p \<longleftrightarrow> (\<exists>xs. s = xs @ p)"
proof
  assume "endswith s p"
  then have "s = take (length s - length p) s @ p"
    by (metis append_take_drop_id endswith_def)
  then show "\<exists>xs. s = xs @ p" ..
next
  assume "\<exists>xs. s = xs @ p"
  then show "endswith s p" by (auto simp: endswith_def)
qed

lemma startswith_iff: "startswith s p \<longleftrightarrow> prefix p s"
  unfolding startswith_def prefix_def
  by (metis append_eq_conv_conj)

lemma startswith_refl: "startswith s s"
  by (simp add: startswith_def)

lemma pyd_not_so: "endswith path ''.pyd'' \<Longrightarrow> \<not> endswith path ''.so''"
  by (auto simp: endswith_iff)

subsection \<open>Shared-object files\<close>

text \<open>
  Claim C2. Whatever the running and the target version are (equal or not), a path
  ending in \<^verbatim>\<open>.so\<close> makes \<^verbatim>\<open>check_ext_mod\<close> raise
  \<^verbatim>\<open>ExtensionModuleMismatch\<close>.
\<close>

theorem check_ext_mod_so_raises:
  "endswith path ''.so'' \<Longrightarrow>
     check_ext_mod running path target_python =
       Inl (ExtensionModuleMismatch ''Windows'' path)"
  by (simp add: check_ext_mod_def)

theorem check_ext_mod_so_raises_witness:
  "endswith ''pkg/_speedups.so'' ''.so'' \<and>
   check_ext_mod ''3.11'' ''pkg/_speedups.so'' ''3.11'' =
     Inl (ExtensionModuleMismatch ''Windows'' ''pkg/_speedups.so'')"
proof -
  have h: "endswith ''pkg/_speedups.so'' ''.so''"
    by (simp add: endswith_def)
  show ?thesis
    using h check_ext_mod_so_raises [OF h, of "''3.11''" "''3.11''"] by simp
qed

subsection \<open>Windows extension modules\<close>

text \<open>
  Claim C3, as stated: for a path ending in \<^verbatim>\<open>.pyd\<close> the check raises exactly
  when the target version differs from the running version. This fails: the code
  compares with \<^verbatim>\<open>startswith\<close>, so the target \<^verbatim>\<open>3.6.3\<close> passes on a running
  \<^verbatim>\<open>3.6\<close> although the two strings differ.
\<close>

theorem check_ext_mod_pyd_differs_counterexample:
  "\<not> (check_ext_mod ''3.6'' ''m.pyd'' ''3.6.3'' \<noteq> Inr () \<longleftrightarrow> ''3.6.3'' \<noteq> ''3.6'')"
  by (simp add: check_ext_mod_def endswith_def startswith_def)

text \<open>
  Claim C3, amended: for a path ending in \<^verbatim>\<open>.pyd\<close> the check raises
  \<^verbatim>\<open>ExtensionModuleMismatch\<close> exactly when the target version string does not start
  with the running version string, and returns without error exactly when it does;
  equal strings therefore pass.
\<close>

theorem check_ext_mod_pyd_prefix:
  "endswith path ''.pyd'' \<Longrightarrow>
     (check_ext_mod running path target_python =
        Inl (ExtensionModuleMismatch (''Python '' @ target_python) path)
        \<longleftrightarrow> \<not> startswith target_python running) \<and>
     (check_ext_mod running path target_python = Inr ()
        \<longleftrightarrow> startswith target_python running) \<and>
     check_ext_mod running path running = Inr ()"
  by (auto simp: check_ext_mod_def startswith_refl dest: pyd_not_so)

theorem check_ext_mod_pyd_prefix_witness:
  "endswith ''m.pyd'' ''.pyd'' \<and>
   check_ext_mod ''3.6'' ''m.pyd'' ''3.7.1'' =
     Inl (ExtensionModuleMismatch ''Python 3.7.1'' ''m.pyd'') \<and>
   check_ext_mod ''3.6'' ''m.pyd'' ''3.6'' = Inr ()"
proof -
  have h: "endswith ''m.pyd'' ''.pyd''"
    by (simp add: endswith_def)
  have n: "\<not> startswith ''3.7.1'' ''3.6''"
    by (simp add: startswith_def)
  show ?thesis
    using h n check_ext_mod_pyd_prefix [OF h, of "''3.6''" "''3.7.1''"]
      check_ext_mod_pyd_prefix [OF h, of "''3.6''" "''3.6''"]
    by simp
qed

subsection \<open>Paths and their components\<close>

lemma split_on_no_sep: "c \<notin> set s \<Longrightarrow> split_on c s = [s]"
  by (induction s) auto

lemma split_on_append_sep: "c \<notin> set a \<Longrightarrow> split_on c (a @ c # s) = a # split_on c s"
  by (induction a) auto

lemma split_sep_join:
  "cs \<noteq> [] \<Longrightarrow> \<forall>x\<in>set cs. CHR ''/'' \<notin> set x \<Longrightarrow> split_on CHR ''/'' (sep_join cs) = cs"
proof (induction cs rule: sep_join.induct)
  case 1
  then show ?case by simp
next
  case (2 c)
  then show ?case by (simp add: split_on_no_sep)
next
  case (3 c d cs)
  then show ?case by (simp add: split_on_append_sep)
qed

lemma split_on_pieces: "x \<in> set (split_on c s) \<Longrightarrow> c \<notin> set x"
  by (induction s arbitrary: x) (auto split: if_splits list.splits)

lemma components_pieces:
  "x \<in> set (components p) \<Longrightarrow> x \<noteq> [] \<and> CHR ''/'' \<notin> set x"
  by (auto simp: components_def dest: split_on_pieces)

lemma sep_join_Nil_iff: "\<forall>x\<in>set cs. x \<noteq> [] \<Longrightarrow> sep_join cs = [] \<longleftrightarrow> cs = []"
  by (induction cs rule: sep_join.induct) auto

lemma sep_join_inj:
  assumes "\<forall>x\<in>set cs. x \<noteq> [] \<and> CHR ''/'' \<notin> set x"
      and "\<forall>x\<in>set ds. x \<noteq> [] \<and> CHR ''/'' \<notin> set x"
      and "sep_join cs = sep_join ds"
  shows "cs = ds"
proof (cases "cs = [] \<or> ds = []")
  case True
  with assms show ?thesis
    by (metis sep_join_Nil_iff)
next
  case False
  then have "split_on CHR ''/'' (sep_join cs) = cs" "split_on CHR ''/'' (sep_join ds) = ds"
    using assms(1,2) by (simp_all add: split_sep_join)
  with assms(3) show ?thesis by metis
qed

lemma norm_abs_isabs: "norm_abs p \<Longrightarrow> isabs p"
  by (metis norm_abs_def isabs_def take_Suc_Cons take_0 One_nat_def)

lemma commonpath_single: "norm_abs p \<Longrightarrow> commonpath [p] = Inr p"
  using norm_abs_isabs [of p] by (simp add: commonpath_def norm_abs_def [symmetric]) (simp add: norm_abs_def)

lemma commonpath_pair:
  "norm_abs a \<Longrightarrow> norm_abs b \<Longrightarrow>
     commonpath [a, b] =
       Inr (CHR ''/'' # sep_join (longest_common_prefix (components a) (components b)))"
  using norm_abs_isabs [of a] norm_abs_isabs [of b] by (simp add: commonpath_def)

lemma lcp_eq_iff_prefix: "longest_common_prefix xs ys = xs \<longleftrightarrow> prefix xs ys"
  by (metis longest_common_prefix_max_prefix longest_common_prefix_prefix1
      longest_common_prefix_prefix2 prefix_order.antisym prefix_order.refl)

lemma commonpath_eq_iff_prefix:
  assumes "norm_abs a" "norm_abs b"
  shows "commonpath [a] = commonpath [a, b] \<longleftrightarrow> prefix (components a) (components b)"
proof -
  let ?l = "longest_common_prefix (components a) (components b)"
  have pl: "prefix ?l (components a)" by (rule longest_common_prefix_prefix1)
  have l: "\<forall>x\<in>set ?l. x \<noteq> [] \<and> CHR ''/'' \<notin> set x"
    using pl components_pieces [of _ a] by (meson set_mono_prefix subsetD)
  have c: "\<forall>x\<in>set (components a). x \<noteq> [] \<and> CHR ''/'' \<notin> set x"
    using components_pieces [of _ a] by blast
  have "commonpath [a] = commonpath [a, b] \<longleftrightarrow> a = CHR ''/'' # sep_join ?l"
    using assms by (simp add: commonpath_single commonpath_pair)
  also have "\<dots> \<longleftrightarrow> sep_join (components a) = sep_join ?l"
    using assms(1) unfolding norm_abs_def by (metis list.inject)
  also have "\<dots> \<longleftrightarrow> components a = ?l"
    using sep_join_inj [OF c l] by auto
  also have "\<dots> \<longleftrightarrow> prefix (components a) (components b)"
    using lcp_eq_iff_prefix [of "components a" "components b"] by auto
  finally show ?thesis .
qed

lemma any_contains_normal:
  "\<forall>item\<in>set ignore. norm_abs item \<Longrightarrow> norm_abs p \<Longrightarrow>
     any_contains ignore p = Inr (contained ignore p)"
proof (induction ignore)
  case Nil
  then show ?case by (simp add: contained_def)
next
  case (Cons item items)
  then have n: "norm_abs item" and ih: "any_contains items p = Inr (contained items p)"
    by simp_all
  have eq: "commonpath [item] = commonpath [item, p] \<longleftrightarrow> prefix (components item) (components p)"
    using n Cons.prems(2) by (rule commonpath_eq_iff_prefix)
  obtain a b where a: "commonpath [item] = Inr a" and b: "commonpath [item, p] = Inr b"
    using n Cons.prems(2) by (simp add: commonpath_single commonpath_pair)
  show ?case
    using eq ih by (simp add: a b contained_def)
qed

lemma check_files_ok_iff:
  "check_files running tp fp fs = Inr () \<longleftrightarrow>
     (\<forall>f\<in>set fs. check_ext_mod running (join2 fp f) tp = Inr ())"
  by (induction fs) (auto split: sum.splits)

lemma check_dirs_ok_iff:
  assumes "ignore \<noteq> []" "\<forall>item\<in>set ignore. norm_abs item"
      and "\<forall>(d, ds, fs)\<in>set dirs. norm_abs (abspath_realpath env (join2 p d))"
  shows "check_dirs env p tp ignore dirs = Inr () \<longleftrightarrow>
     (\<forall>(d, ds, fs)\<in>set dirs.
        contained ignore (abspath_realpath env (join2 p d)) \<or>
        (\<forall>f\<in>set fs. check_ext_mod (running_python env)
                       (join2 (abspath_realpath env (join2 p d)) f) tp = Inr ()))"
  using assms(3)
proof (induction dirs)
  case Nil
  then show ?case by simp
next
  case (Cons x dirs)
  obtain d ds fs where x: "x = (d, ds, fs)" by (cases x) auto
  from Cons.prems x have n: "norm_abs (abspath_realpath env (join2 p d))" by simp
  from Cons have ih: "check_dirs env p tp ignore dirs = Inr () \<longleftrightarrow>
     (\<forall>(d, ds, fs)\<in>set dirs.
        contained ignore (abspath_realpath env (join2 p d)) \<or>
        (\<forall>f\<in>set fs. check_ext_mod (running_python env)
                       (join2 (abspath_realpath env (join2 p d)) f) tp = Inr ()))"
    by simp
  let ?fp = "abspath_realpath env (join2 p d)"
  have ac: "any_contains ignore ?fp = Inr (contained ignore ?fp)"
    by (rule any_contains_normal [OF assms(2) n])
  show ?case
  proof (cases "contained ignore ?fp")
    case True
    then show ?thesis
      unfolding x using ih assms(1) ac by (simp add: Let_def)
  next
    case False
    show ?thesis
    proof (cases "check_files (running_python env) tp ?fp fs")
      case (Inl e)
      then have "\<not> (\<forall>f\<in>set fs. check_ext_mod (running_python env) (join2 ?fp f) tp = Inr ())"
        using check_files_ok_iff [of "running_python env" tp ?fp fs] by simp
      then show ?thesis
        unfolding x using False assms(1) ac Inl by (simp add: Let_def)
    next
      case (Inr u)
      then have "\<forall>f\<in>set fs. check_ext_mod (running_python env) (join2 ?fp f) tp = Inr ()"
        using check_files_ok_iff [of "running_python env" tp ?fp fs] by simp
      then show ?thesis
        unfolding x using False assms(1) ac Inr ih by (simp add: Let_def)
    qed
  qed
qed

subsection \<open>Skipping ignored directories\<close>

text \<open>
  What the scan does, in terms of the path the code resolves for each directory of
  the walk, \<^verbatim>\<open>abspath(realpath(join(path, dirpath)))\<close>: with a non-empty ignore
  set of normalized absolute entries, the scan succeeds exactly when every resolved
  path is contained, component by component, in some ignore entry, or the directory
  has only files that pass \<^verbatim>\<open>check_ext_mod\<close>. Containment is by components, so
  \<^verbatim>\<open>/a/bexp\<close> is not skipped for the entry \<^verbatim>\<open>/a/b\<close>.
\<close>

lemma scan_of_resolved_paths:
  assumes "ignore \<noteq> []"
      and "\<forall>item\<in>set ignore. norm_abs item"
      and "\<forall>(d, ds, fs)\<in>set (os_walk w p). norm_abs (abspath_realpath env (join2 p d))"
  shows "check_package_for_ext_mods env p tp (Some ignore) w = Inr () \<longleftrightarrow>
     (\<forall>(d, ds, fs)\<in>set (os_walk w p).
        contained ignore (abspath_realpath env (join2 p d)) \<or>
        (\<forall>f\<in>set fs. check_ext_mod (running_python env)
                       (join2 (abspath_realpath env (join2 p d)) f) tp = Inr ()))"
  unfolding check_package_for_ext_mods_def
  using check_dirs_ok_iff [OF assms] by simp

lemma walk_sibling:
  "os_walk sibling_world ''/a'' =
     [(''/a'', [''b'', ''bexp''], []), (''/a/b'', [], [''x.so'']), (''/a/bexp'', [], [''y.so''])]"
  by (simp add: os_walk_def sibling_world_def components_def join2_def)

lemma scan_of_resolved_paths_example:
  "norm_abs ''/a/b'' \<and>
   os_walk sibling_world ''/a'' =
     [(''/a'', [''b'', ''bexp''], []), (''/a/b'', [], [''x.so'']),
      (''/a/bexp'', [], [''y.so''])] \<and>
   norm_abs (abspath_realpath plain_env (join2 ''/a'' ''/a'')) \<and>
   norm_abs (abspath_realpath plain_env (join2 ''/a'' ''/a/b'')) \<and>
   norm_abs (abspath_realpath plain_env (join2 ''/a'' ''/a/bexp'')) \<and>
   contained [''/a/b''] ''/a/b'' \<and> \<not> contained [''/a/b''] ''/a/bexp'' \<and>
   check_package_for_ext_mods plain_env ''/a'' ''3.6'' (Some [''/a/b'']) sibling_world \<noteq> Inr ()"
proof -
  have h1: "[''/a/b''] \<noteq> []" by simp
  have n: "norm_abs ''/a/b''" "norm_abs (abspath_realpath plain_env (join2 ''/a'' ''/a''))"
    "norm_abs (abspath_realpath plain_env (join2 ''/a'' ''/a/b''))"
    "norm_abs (abspath_realpath plain_env (join2 ''/a'' ''/a/bexp''))"
    by (simp_all add: plain_env_def join2_def norm_abs_def components_def)
  have h2: "\<forall>item\<in>set [''/a/b'']. norm_abs item"
    using n by simp
  have h3: "\<forall>(d, ds, fs)\<in>set (os_walk sibling_world ''/a'').
       norm_abs (abspath_realpath plain_env (join2 ''/a'' d))"
    using n by (simp add: walk_sibling)
  have c1: "contained [''/a/b''] ''/a/b''"
    by (simp add: contained_def components_def)
  have c2: "\<not> contained [''/a/b''] ''/a/bexp''"
    by (simp add: contained_def components_def)
  have "\<not> (\<forall>(d, ds, fs)\<in>set (os_walk sibling_world ''/a'').
        contained [''/a/b''] (abspath_realpath plain_env (join2 ''/a'' d)) \<or>
        (\<forall>f\<in>set fs. check_ext_mod (running_python plain_env)
                       (join2 (abspath_realpath plain_env (join2 ''/a'' d)) f) ''3.6'' = Inr ()))"
    using c2 by (simp add: walk_sibling plain_env_def join2_def check_ext_mod_def endswith_def)
  then have "check_package_for_ext_mods plain_env ''/a'' ''3.6'' (Some [''/a/b'']) sibling_world \<noteq> Inr ()"
    using scan_of_resolved_paths [OF h1 h2 h3, of "''3.6''"] by simp
  with n c1 c2 walk_sibling show ?thesis by blast
qed

text \<open>For an absolute package path the joined path is the directory's own path.\<close>

lemma join2_absolute: "isabs d \<Longrightarrow> join2 p d = d"
  by (simp add: join2_def isabs_def)

lemma isabs_join2: "isabs t \<Longrightarrow> isabs (join2 t n)"
  by (cases t) (auto simp: join2_def isabs_def)

lemma walk_node_absolute:
  "isabs p \<Longrightarrow> (d, ds, fs) \<in> set (walk_node p n) \<Longrightarrow> isabs d"
proof (induction p n arbitrary: d ds fs rule: walk_node.induct)
  case (1 topdir c)
  then show ?case by simp
next
  case (2 topdir es)
  from "2.prems"(2) consider "d = topdir"
    | e where "e \<in> set es" "(d, ds, fs) \<in> set (walk_node (join2 topdir (fst e)) (snd e))"
    by auto
  then show ?case
  proof cases
    case 1
    with "2.prems"(1) show ?thesis by simp
  next
    case 2
    then show ?thesis
      using "2.IH" [of e d ds fs] isabs_join2 [OF "2.prems"(1)] by simp
  qed
qed

lemma os_walk_absolute:
  "isabs p \<Longrightarrow> (d, ds, fs) \<in> set (os_walk w p) \<Longrightarrow> join2 p d = d"
  by (auto simp: os_walk_def split: option.splits intro: join2_absolute walk_node_absolute)

text \<open>
  Claim C8. A directory of the walk is to be skipped exactly when its normalized
  absolute path is contained, component by component, in some ignore entry. The code
  does not test the directory's path but \<^verbatim>\<open>abspath(realpath(join(path,
  dirpath)))\<close>, and the \<^verbatim>\<open>dirpath\<close> of \<^verbatim>\<open>os.walk\<close> already starts with
  \<^verbatim>\<open>path\<close>: for a relative package path the joined path names the package
  twice. With the working directory at the root and the package path \<^verbatim>\<open>a\<close>, the
  directory \<^verbatim>\<open>a/b\<close> has the absolute path \<^verbatim>\<open>/a/b\<close>, which is an ignore
  entry; the code resolves it to \<^verbatim>\<open>/a/a/b\<close>, does not skip it, and raises for
  its file \<^verbatim>\<open>x.so\<close>.
\<close>

theorem check_package_relative_path:
  "os_walk sibling_world ''a'' =
     [(''a'', [''b'', ''bexp''], []), (''a/b'', [], [''x.so'']), (''a/bexp'', [], [''y.so''])] \<and>
   abspath_realpath rooted_env ''a/b'' = ''/a/b'' \<and>
   norm_abs ''/a/b'' \<and> norm_abs ''/a/bexp'' \<and>
   contained [''/a/b'', ''/a/bexp''] (abspath_realpath rooted_env ''a/b'') \<and>
   abspath_realpath rooted_env (join2 ''a'' ''a/b'') = ''/a/a/b'' \<and>
   check_package_for_ext_mods rooted_env ''a'' ''3.6'' (Some [''/a/b'', ''/a/bexp''])
     sibling_world = Inl (ExtensionModuleMismatch ''Windows'' ''/a/a/b/x.so'')"
  by code_simp

subsection \<open>Modules in zip files\<close>

lemma ensurePathFormat_raises: "ensurePathFormat p = Inl (NameError ''re'')"
  by (simp add: ensurePathFormat_def module_globals_def)

lemma pjoin_raises: "pjoin a b = Inl (NameError ''re'')"
  by (simp add: pjoin_def ensurePathFormat_raises)

lemma and_then_raise:
  "and_then r (\<lambda>w. (Some e, w)) = (case fst r of None \<Rightarrow> Some e | Some e' \<Rightarrow> Some e', snd r)"
  by (cases r) (auto simp: and_then_def split: option.splits)

lemma and_then_Some: "fst r = Some e \<Longrightarrow> and_then r f = r"
  by (cases r) (auto simp: and_then_def)

lemma zip_package_eq:
  "zip_package zf pz tempdir modname target w =
     (if \<not> startswith (snd (os_path_split pz)) ''__init__'' then (Some AssertionError, w)
      else and_then (zip_extractall zf (filter (\<lambda>f. startswith f (fst (os_path_split pz))) (map fst zf)) tempdir w)
             (\<lambda>w. (Some (NameError ''re''), w)))"
  by (simp add: zip_package_def pjoin_raises split: prod.splits)

lemma zip_module_eq:
  "zip_module zf pz tempdir modname target w =
     and_then (prim w (zip_extract zf pz tempdir w)) (\<lambda>w. (Some (NameError ''re''), w))"
  by (simp add: zip_module_def pjoin_raises)

lemma map_of_set_entry: "map_of (set_entry x n es) x = Some n"
  by (induction es) auto

lemma lookup_put_same: "put t xs n = Some t' \<Longrightarrow> lookup t' xs = Some n"
proof (induction xs arbitrary: t t')
  case Nil
  then show ?case by simp
next
  case (Cons x xs)
  then show ?case
    by (cases t) (auto simp: map_of_set_entry split: option.splits)
qed

lemma put_below_keeps_dir:
  "lookup t xs = Some (Dir es) \<Longrightarrow> zs \<noteq> [] \<Longrightarrow> put t (xs @ zs) n = Some t' \<Longrightarrow>
     \<exists>es'. lookup t' xs = Some (Dir es')"
proof (induction xs arbitrary: t t')
  case Nil
  then show ?case
    by (cases zs) (auto split: option.splits)
next
  case (Cons x xs)
  then show ?case
    by (cases t) (auto simp: map_of_set_entry split: option.splits)
qed

lemma zip_extract_events: "zip_extract zf m p w = Inr w' \<Longrightarrow> events w' = events w"
  by (auto simp: zip_extract_def Let_def split: option.splits node.splits if_splits)

lemma zip_extract_keeps_dir:
  assumes "zip_extract zf m p w = Inr w'" "is_directory w p"
  shows "is_directory w' p"
proof -
  let ?zs = "filter (\<lambda>c. c \<noteq> [] \<and> c \<noteq> ''.'' \<and> c \<noteq> ''..'') (split_on CHR ''/'' m)"
  from assms(2) obtain es where d: "lookup (root w) (components p) = Some (Dir es)"
    by (auto simp: is_directory_def split: option.splits node.splits)
  show ?thesis
  proof (cases "?zs = []")
    case True
    with assms(1) d have "w' = w"
      by (auto simp: zip_extract_def Let_def split: option.splits if_splits)
    with assms(2) show ?thesis by simp
  next
    case False
    have "\<And>n r. put (root w) (components p @ ?zs) n = Some r \<Longrightarrow>
            \<exists>es'. lookup r (components p) = Some (Dir es')"
      using put_below_keeps_dir [OF d False] by blast
    with assms(1) d show ?thesis
      by (fastforce simp: zip_extract_def Let_def is_directory_def
          split: option.splits node.splits if_splits)
  qed
qed

lemma zip_extractall_events: "events (snd (zip_extractall zf ms p w)) = events w"
  by (induction ms arbitrary: w) (auto split: sum.splits dest: zip_extract_events)

lemma zip_extractall_keeps_dir:
  "is_directory w p \<Longrightarrow> is_directory (snd (zip_extractall zf ms p w)) p"
  by (induction ms arbitrary: w) (auto split: sum.splits dest: zip_extract_keeps_dir)

lemma mkdtemp_makes_dir:
  "tempfile_mkdtemp env w = Inr (d, w') \<Longrightarrow> is_directory w' d \<and> events w' = events w"
  by (auto simp: tempfile_mkdtemp_def Let_def is_directory_def lookup_put_same
      split: if_splits option.splits)



lemma zip_package_raises:
  "fst (zip_package zf pz t m tg w) \<noteq> None \<and>
   events (snd (zip_package zf pz t m tg w)) = events w \<and>
   (is_directory w t \<longrightarrow> is_directory (snd (zip_package zf pz t m tg w)) t)"
  by (simp add: zip_package_eq and_then_raise zip_extractall_events zip_extractall_keeps_dir
      split: option.splits)

lemma zip_module_raises:
  "fst (zip_module zf pz t m tg w) \<noteq> None \<and>
   events (snd (zip_module zf pz t m tg w)) = events w \<and>
   (is_directory w t \<longrightarrow> is_directory (snd (zip_module zf pz t m tg w)) t)"
proof (cases "zip_extract zf pz t w")
  case (Inl e)
  then show ?thesis
    by (simp add: zip_module_eq and_then_raise prim_def)
next
  case (Inr w')
  then show ?thesis
    using zip_extract_events [OF Inr] zip_extract_keeps_dir [OF Inr]
    by (simp add: zip_module_eq and_then_raise prim_def)
qed

lemma copy_zipmodule_never_cleans:
  "copy_zipmodule env loader modname target w =
     (if \<not> startswith (zip_filename loader) (archive loader) then (Some AssertionError, w)
      else case zipfile_ZipFile env (archive loader) of
             Inl e \<Rightarrow> (Some e, w)
           | Inr zf \<Rightarrow>
               (case tempfile_mkdtemp env w of
                  Inl e \<Rightarrow> (Some e, w)
                | Inr (tempdir, w1) \<Rightarrow>
                    if zip_is_package loader
                    then zip_package zf (drop (length (archive loader @ ''/'')) (zip_filename loader))
                           tempdir modname target w1
                    else zip_module zf (drop (length (archive loader @ ''/'')) (zip_filename loader))
                           tempdir modname target w1))"
proof -
  have "\<And>zf pz t w1 f. and_then (zip_package zf pz t modname target w1) f =
          zip_package zf pz t modname target w1"
    using zip_package_raises and_then_Some by (metis not_None_eq)
  moreover have "\<And>zf pz t w1 f. and_then (zip_module zf pz t modname target w1) f =
          zip_module zf pz t modname target w1"
    using zip_module_raises and_then_Some by (metis not_None_eq)
  ultimately show ?thesis
    by (simp add: copy_zipmodule_def Let_def split: sum.splits prod.splits)
qed

lemma copy_zipmodule_raises_aux:
  "fst (copy_zipmodule env loader modname target w) \<noteq> None \<and>
   events (snd (copy_zipmodule env loader modname target w)) = events w"
  using zip_package_raises zip_module_raises
  by (auto simp: copy_zipmodule_never_cleans split: sum.splits dest: mkdtemp_makes_dir)

lemma copy_zipmodule_name_error:
  "extraction_succeeds env loader w \<Longrightarrow>
     fst (copy_zipmodule env loader modname target w) = Some (NameError ''re'')"
  by (auto simp: copy_zipmodule_never_cleans extraction_succeeds_def Let_def zip_package_eq
      zip_module_eq and_then_raise prim_def split: sum.splits prod.splits if_splits)

text \<open>
  Claim C10. \<^verbatim>\<open>ensurePathFormat\<close> raises \<^verbatim>\<open>NameError\<close> for the unbound name
  \<^verbatim>\<open>re\<close> on every path, so no separator is ever translated; \<^verbatim>\<open>copy_zipmodule\<close>
  therefore raises on every input and records no copied unit, and whenever the
  statements before the first \<^verbatim>\<open>pjoin\<close> return (the unit is in the archive and is
  extracted), the exception raised is that \<^verbatim>\<open>NameError\<close>.
\<close>

theorem copy_zipmodule_always_raises:
  "ensurePathFormat p = Inl (NameError ''re'') \<and>
   fst (copy_zipmodule env loader modname target w) \<noteq> None \<and>
   events (snd (copy_zipmodule env loader modname target w)) = events w \<and>
   (extraction_succeeds env loader w \<longrightarrow>
      fst (copy_zipmodule env loader modname target w) = Some (NameError ''re''))"
  using copy_zipmodule_raises_aux [of env loader modname target w]
    copy_zipmodule_name_error [of env loader w modname target]
  by (simp add: ensurePathFormat_raises)

theorem copy_zipmodule_always_raises_witness:
  "extraction_succeeds zip_env pk_loader zip_world \<and>
   fst (copy_zipmodule zip_env pk_loader ''pk'' ''/t'' zip_world) = Some (NameError ''re'') \<and>
   events (snd (copy_zipmodule zip_env pk_loader ''pk'' ''/t'' zip_world)) = []"
proof -
  have h: "extraction_succeeds zip_env pk_loader zip_world"
    by code_simp
  have e: "events zip_world = []"
    by (simp add: zip_world_def)
  show ?thesis
    using h e copy_zipmodule_always_raises [of "''/t''" zip_env pk_loader "''pk''" "''/t''" zip_world]
    by simp
qed

text \<open>
  Claim C1, as stated: the scratch directory made by \<^verbatim>\<open>copy_zipmodule\<close> is gone
  when the call exits, however it exits. This fails: for the package \<^verbatim>\<open>pk\<close> of the
  archive the call exits with an exception and \<^verbatim>\<open>/tmp/t\<close>, which did not exist
  before, is still a directory.
\<close>

theorem copy_zipmodule_cleanup_counterexample:
  "\<not> is_directory zip_world ''/tmp/t'' \<and>
   fst (copy_zipmodule zip_env pk_loader ''pk'' ''/t'' zip_world) \<noteq> None \<and>
   is_directory (snd (copy_zipmodule zip_env pk_loader ''pk'' ''/t'' zip_world)) ''/tmp/t''"
  by code_simp

text \<open>
  Claim C1, amended: the cleanup is not guaranteed. Whenever \<^verbatim>\<open>copy_zipmodule\<close>
  exits with an exception raised after \<^verbatim>\<open>mkdtemp\<close> has made the scratch directory,
  that directory still exists when the call exits.
\<close>

theorem copy_zipmodule_leaves_tempdir:
  assumes "startswith (zip_filename loader) (archive loader)"
      and "zip_members env (archive loader) = Some zf"
      and "tempfile_mkdtemp env w = Inr (tempdir, w1)"
      and "copy_zipmodule env loader modname target w = (Some e, w')"
    shows "is_directory w' tempdir"
proof -
  have d: "is_directory w1 tempdir"
    using mkdtemp_makes_dir [OF assms(3)] by simp
  have "w' = snd (copy_zipmodule env loader modname target w)"
    using assms(4) by simp
  then show ?thesis
    using assms(1-3) d zip_package_raises zip_module_raises
    by (simp add: copy_zipmodule_never_cleans zipfile_ZipFile_def)
qed

theorem copy_zipmodule_leaves_tempdir_witness:
  "startswith (zip_filename z_loader) (archive z_loader) \<and>
   zip_members zip_env (archive z_loader) =
     Some [(''z.py'', ''zz''), (''pk/__init__.py'', ''i''), (''pk/c.pyc'', ''c'')] \<and>
   tempfile_mkdtemp zip_env zip_world =
     Inr (''/tmp/t'',
          \<lparr>root = Dir [(''lib'', Dir [(''a.zip'', File ''PK'')]), (''t'', Dir []),
                       (''tmp'', Dir [(''t'', Dir [])])],
           tmp_count = 1, events = []\<rparr>) \<and>
   copy_zipmodule zip_env z_loader ''z'' ''/t'' zip_world =
     (Some (NameError ''re''),
      \<lparr>root = Dir [(''lib'', Dir [(''a.zip'', File ''PK'')]), (''t'', Dir []),
                   (''tmp'', Dir [(''t'', Dir [(''z.py'', File ''zz'')])])],
       tmp_count = 1, events = []\<rparr>) \<and>
   is_directory
     \<lparr>root = Dir [(''lib'', Dir [(''a.zip'', File ''PK'')]), (''t'', Dir []),
                  (''tmp'', Dir [(''t'', Dir [(''z.py'', File ''zz'')])])],
      tmp_count = 1, events = []\<rparr> ''/tmp/t''"
proof -
  have h1: "startswith (zip_filename z_loader) (archive z_loader)"
    by code_simp
  have h2: "zip_members zip_env (archive z_loader) =
     Some [(''z.py'', ''zz''), (''pk/__init__.py'', ''i''), (''pk/c.pyc'', ''c'')]"
    by code_simp
  have h3: "tempfile_mkdtemp zip_env zip_world =
     Inr (''/tmp/t'',
          \<lparr>root = Dir [(''lib'', Dir [(''a.zip'', File ''PK'')]), (''t'', Dir []),
                       (''tmp'', Dir [(''t'', Dir [])])],
           tmp_count = 1, events = []\<rparr>)"
    by code_simp
  have h4: "copy_zipmodule zip_env z_loader ''z'' ''/t'' zip_world =
     (Some (NameError ''re''),
      \<lparr>root = Dir [(''lib'', Dir [(''a.zip'', File ''PK'')]), (''t'', Dir []),
                   (''tmp'', Dir [(''t'', Dir [(''z.py'', File ''zz'')])])],
       tmp_count = 1, events = []\<rparr>)"
    by code_simp
  from copy_zipmodule_leaves_tempdir [OF h1 h2 h3 h4] h1 h2 h3 h4
  show ?thesis by blast
qed

subsection \<open>Batches\<close>

lemma write_file_events: "write_file p c w = Inr w' \<Longrightarrow> events w' = events w"
  by (auto simp: write_file_def Let_def split: option.splits node.splits)

lemma shutil_copy2_events: "shutil_copy2 src dst w = Inr w' \<Longrightarrow> events w' = events w"
  by (auto simp: shutil_copy2_def Let_def split: option.splits node.splits if_splits
      dest: write_file_events)

lemma shutil_copytree_events: "shutil_copytree ig src dst w = Inr w' \<Longrightarrow> events w' = events w"
  by (auto simp: shutil_copytree_def split: option.splits node.splits if_splits)

text \<open>A copy primitive followed by the note of the unit.\<close>

lemma copy_then_note_events:
  assumes "\<And>w'. r = Inr w' \<Longrightarrow> events w' = events w"
  shows "events (snd (and_then (prim w r) (note_event (CopiedUnit m)))) =
           events w @ (if fst (and_then (prim w r) (note_event (CopiedUnit m))) = None
                        then [CopiedUnit m] else [])"
  using assms by (cases r) (auto simp: and_then_def prim_def note_event_def)

lemma copy_package_events:
  "events (snd (copy_package env mc m tg ex xp ip file w)) =
     events w @ (if fst (copy_package env mc m tg ex xp ip file w) = None then [CopiedUnit m] else [])"
  unfolding copy_package_def
  by (auto simp: Let_def copy_then_note_events shutil_copytree_events
      split: prod.splits sum.splits)


lemma ModuleCopier_copy_events:
  "events (snd (ModuleCopier_copy env mc m tg ex xp ip w)) = events w \<or>
   events (snd (ModuleCopier_copy env mc m tg ex xp ip w)) = events w @ [CopiedUnit m]"
proof (cases "find_spec env m (self_path mc)")
  case None
  then show ?thesis by (simp add: ModuleCopier_copy_def)
next
  case (Some sp)
  then obtain lo where sp: "find_spec env m (self_path mc) = Some (ModuleSpec lo)"
    by (cases sp) auto
  show ?thesis
  proof (cases lo)
    case None
    with sp show ?thesis by (simp add: ModuleCopier_copy_def)
  next
    case (Some l)
    show ?thesis
    proof (cases l)
      case (ExtensionFileLoader lpath pkg)
      with sp Some show ?thesis
        by (auto simp: ModuleCopier_copy_def copy_then_note_events shutil_copy2_events
            split: sum.splits)
    next
      case (FileLoader fl pkg)
      with sp Some show ?thesis
        by (auto simp: ModuleCopier_copy_def copy_then_note_events shutil_copy2_events
            copy_package_events)
    next
      case (Zipimporter z)
      with sp Some show ?thesis
        using copy_zipmodule_raises_aux [of env z m tg w]
        by (simp add: ModuleCopier_copy_def)
    next
      case (OtherLoader pkg)
      with sp Some show ?thesis by (simp add: ModuleCopier_copy_def)
    qed
  qed
qed

lemma ModuleCopier_copy_copies:
  "copies (snd (ModuleCopier_copy env mc m tg ex xp ip w)) n \<le> copies w n + (if n = m then 1 else 0) \<and>
   copies w n \<le> copies (snd (ModuleCopier_copy env mc m tg ex xp ip w)) n \<and>
   placeholder_writes (snd (ModuleCopier_copy env mc m tg ex xp ip w)) = placeholder_writes w"
  using ModuleCopier_copy_events [of env mc m tg ex xp ip w]
  by (auto simp: copies_def placeholder_writes_def)

lemma copy_loop_copies:
  "copies (snd (copy_loop env mc files tg ex xp ip ms w)) n \<le>
     copies w n + count_list (filter (\<lambda>m. m \<notin> set files) ms) n \<and>
   copies w n \<le> copies (snd (copy_loop env mc files tg ex xp ip ms w)) n \<and>
   placeholder_writes (snd (copy_loop env mc files tg ex xp ip ms w)) = placeholder_writes w"
proof (induction ms arbitrary: w)
  case Nil
  then show ?case by simp
next
  case (Cons m ms)
  show ?case
  proof (cases "m \<in> set files")
    case True
    then show ?thesis using Cons.IH [of w] by simp
  next
    case False
    obtain r w1 where R: "ModuleCopier_copy env mc m tg ex xp ip w = (r, w1)"
      by (cases "ModuleCopier_copy env mc m tg ex xp ip w") auto
    have c: "copies w1 n \<le> copies w n + (if n = m then 1 else 0)" "copies w n \<le> copies w1 n"
      "placeholder_writes w1 = placeholder_writes w"
      using ModuleCopier_copy_copies [of env mc m tg ex xp ip w n] R by simp_all
    show ?thesis
    proof (cases r)
      case None
      then show ?thesis
        using False R c Cons.IH [of w1] by (auto simp: and_then_def)
    next
      case (Some e)
      then show ?thesis
        using False R c by (auto simp: and_then_def)
    qed
  qed
qed

lemma copy_loop_skip:
  "m \<in> set files \<Longrightarrow>
     copy_loop env mc files tg ex xp ip (pre @ m # post) w =
     copy_loop env mc files tg ex xp ip (pre @ post) w"
proof (induction pre arbitrary: w)
  case Nil
  then show ?case by simp
next
  case (Cons a pre)
  then show ?case
    by (cases "ModuleCopier_copy env mc a tg ex xp ip w") (auto simp: and_then_def split: option.splits)
qed

lemma count_list_filter_le: "count_list (filter P xs) x \<le> count_list xs x"
  by (induction xs) auto

lemma count_list_filter_out: "\<not> P x \<Longrightarrow> count_list (filter P xs) x = 0"
  by (induction xs) auto



lemma split_on_nonempty: "split_on c s \<noteq> []"
  by (induction s) (auto split: list.splits)

lemma split_on_sep_append: "split_on c (a @ c # b) = split_on c a @ split_on c b"
proof (induction a)
  case Nil
  then show ?case by simp
next
  case (Cons x a)
  then show ?case
    using split_on_nonempty [of c a] by (cases "split_on c a") auto
qed

lemma components_sep_append: "components (a @ CHR ''/'' # b) = components a @ components b"
  by (simp add: components_def split_on_sep_append)

lemma components_join2:
  assumes "take 1 b \<noteq> ''/''"
  shows "components (join2 a b) = components a @ components b"
proof (cases "a = []")
  case True
  then show ?thesis using assms by (simp add: join2_def components_def)
next
  case False
  show ?thesis
  proof (cases "last a = CHR ''/''")
    case True
    with False obtain a' where a: "a = a' @ ''/''"
      by (metis append_butlast_last_id)
    have "components a = components a'"
      using components_sep_append [of a' "[]"] by (simp add: a components_def)
    moreover have "join2 a b = a' @ CHR ''/'' # b"
      using assms by (simp add: join2_def a)
    ultimately show ?thesis by (simp add: components_sep_append)
  next
    case l: False
    then have "join2 a b = a @ CHR ''/'' # b"
      using assms False by (simp add: join2_def)
    then show ?thesis by (simp add: components_sep_append)
  qed
qed

lemma components_placeholder:
  "components (join2 target ''placeholder'') = components target @ [''placeholder'']"
  by (simp add: components_join2) (simp add: components_def)

lemma set_entry_names: "x \<in> fst ` set (set_entry x n es)"
  by (induction es) force+

lemma put_into_dir:
  "lookup t cs = Some (Dir es) \<Longrightarrow>
     \<exists>r es'. put t (cs @ [x]) n = Some r \<and> lookup r cs = Some (Dir es') \<and> x \<in> fst ` set es'"
proof (induction cs arbitrary: t)
  case Nil
  then show ?case by (auto simp: set_entry_names)
next
  case (Cons c cs)
  then obtain es0 m where t: "t = Dir es0" "map_of es0 c = Some m" "lookup m cs = Some (Dir es)"
    by (cases t) (auto split: option.splits)
  from Cons.IH [OF t(3)] obtain r es' where
    r: "put m (cs @ [x]) n = Some r" "lookup r cs = Some (Dir es')" "x \<in> fst ` set es'"
    by blast
  then show ?case
    by (simp add: t(1,2) map_of_set_entry)
qed


lemma copy_modules_copies:
  "copies w n \<le> copies (snd (copy_modules env ms tg pyv p ex xp ip w)) n \<and>
   copies (snd (copy_modules env ms tg pyv p ex xp ip w)) n \<le>
     copies w n +
     (case os_listdir w tg of
        Inl e \<Rightarrow> 0
      | Inr names \<Rightarrow> count_list (filter (\<lambda>m. m \<notin> set (map (\<lambda>f. fst (splitext f)) names)) ms) n)"
proof (cases "os_listdir w tg")
  case (Inl e)
  then show ?thesis by (simp add: copy_modules_def)
next
  case (Inr names)
  let ?files = "map (\<lambda>f. fst (splitext f)) names"
  let ?ip = "map (\<lambda>(key, val). (key, remdups (map (abspath_realpath env) val))) ip"
  let ?L = "copy_loop env (ModuleCopier_init env pyv p) ?files tg ex xp ?ip ms w"
  have L: "copies (snd ?L) n \<le> copies w n + count_list (filter (\<lambda>m. m \<notin> set ?files) ms) n"
    "copies w n \<le> copies (snd ?L) n"
    using copy_loop_copies [of env "ModuleCopier_init env pyv p" ?files tg ex xp ?ip ms w n]
    by simp_all
  have "copies (snd (copy_modules env ms tg pyv p ex xp ip w)) n = copies (snd ?L) n"
  proof (cases ?L)
    case (Pair r w1)
    show ?thesis
    proof (cases "ms = [] \<and> r = None")
      case True
      then have w1: "w1 = w" using Pair by simp
      show ?thesis
        using True Pair Inr
        by (cases "write_file (join2 tg ''placeholder'') placeholder_text w")
           (auto simp: copy_modules_def Let_def and_then_def prim_def note_event_def copies_def
             dest: write_file_events)
    next
      case False
      then show ?thesis
        using Pair Inr
        by (cases r) (auto simp: copy_modules_def Let_def and_then_def)
    qed
  qed
  with L Inr show ?thesis by simp
qed


text \<open>
  Claim C4. When the stem of a top-level entry of the target, as listed before the
  batch starts, is a requested name, the batch performs no copy for that name and the
  name has no effect at all: the batch does what it does without the name in the list
  (and leaves the world as it is when no other name is requested), and the number of
  copies recorded for the name does not change.
\<close>

theorem copy_modules_skips_present:
  assumes "os_listdir w target = Inr names"
      and "m \<in> set (map (\<lambda>f. fst (splitext f)) names)"
  shows "copy_modules env (pre @ m # post) target pyv p ex xp ip w =
           (if pre @ post = [] then (None, w)
            else copy_modules env (pre @ post) target pyv p ex xp ip w) \<and>
         copies (snd (copy_modules env (pre @ m # post) target pyv p ex xp ip w)) m = copies w m"
proof -
  have "copy_modules env (pre @ m # post) target pyv p ex xp ip w =
           (if pre @ post = [] then (None, w)
            else copy_modules env (pre @ post) target pyv p ex xp ip w)"
    using assms
    by (auto simp: copy_modules_def Let_def copy_loop_skip and_then_def
        split: prod.splits option.splits)
  moreover have "copies (snd (copy_modules env (pre @ m # post) target pyv p ex xp ip w)) m = copies w m"
    using copy_modules_copies [of w m env "pre @ m # post" target pyv p ex xp ip] assms
    by (simp add: count_list_filter_out)
  ultimately show ?thesis by blast
qed

theorem copy_modules_skips_present_witness:
  "os_listdir file_world ''/t'' = Inr [''old.py''] \<and>
   ''old'' \<in> set (map (\<lambda>f. fst (splitext f)) [''old.py'']) \<and>
   copy_modules file_env [''old''] ''/t'' ''3.6'' None [] [] [] file_world = (None, file_world) \<and>
   copy_modules file_env [''m'', ''old''] ''/t'' ''3.6'' None [] [] [] file_world =
     copy_modules file_env [''m''] ''/t'' ''3.6'' None [] [] [] file_world \<and>
   copies (snd (copy_modules file_env [''m'', ''old''] ''/t'' ''3.6'' None [] [] [] file_world)) ''old'' = 0"
proof -
  have h1: "os_listdir file_world ''/t'' = Inr [''old.py'']"
    by code_simp
  have h2: "''old'' \<in> set (map (\<lambda>f. fst (splitext f)) [''old.py''])"
    by code_simp
  have c: "copies file_world ''old'' = 0"
    by code_simp
  have a: "copy_modules file_env [''old''] ''/t'' ''3.6'' None [] [] [] file_world =
             (None, file_world)"
    using copy_modules_skips_present [OF h1 h2, of file_env "[]" "[]" "''3.6''" None "[]" "[]" "[]"]
    by simp
  note t = copy_modules_skips_present
    [OF h1 h2, of file_env "[''m'']" "[]" "''3.6''" None "[]" "[]" "[]"]
  have b1: "copy_modules file_env [''m'', ''old''] ''/t'' ''3.6'' None [] [] [] file_world =
             copy_modules file_env [''m''] ''/t'' ''3.6'' None [] [] [] file_world"
    using t [THEN conjunct1] by simp
  have b2: "copies (snd (copy_modules file_env [''m'', ''old''] ''/t'' ''3.6'' None [] [] []
                          file_world)) ''old'' = 0"
    using t [THEN conjunct2] c by simp
  from h1 h2 a b1 b2 show ?thesis by blast
qed

text \<open>
  Claim C5, as stated: within one batch every unit is copied at most once, also when
  the list names it more than once. This fails: the entries of the target are listed
  once, before the loop, so the list \<^verbatim>\<open>['m', 'm']\<close> copies the module \<^verbatim>\<open>m\<close>
  twice (the second copy overwrites the first).
\<close>

theorem copy_modules_twice_counterexample:
  "copies file_world ''m'' = 0 \<and>
   fst (copy_modules file_env [''m'', ''m''] ''/t'' ''3.6'' None [] [] [] file_world) = None \<and>
   copies (snd (copy_modules file_env [''m'', ''m''] ''/t'' ''3.6'' None [] [] [] file_world)) ''m'' = 2"
  by code_simp

text \<open>
  Claim C5, amended: within one batch a unit is copied at most once for each
  occurrence of its name in the list; so at most once when no name is repeated.
\<close>

theorem copy_modules_once_per_occurrence:
  "copies (snd (copy_modules env modnames target pyv p ex xp ip w)) m \<le>
     copies w m + count_list modnames m \<and>
   (distinct modnames \<longrightarrow>
      copies (snd (copy_modules env modnames target pyv p ex xp ip w)) m \<le> copies w m + 1)"
proof -
  have a: "copies (snd (copy_modules env modnames target pyv p ex xp ip w)) m \<le>
     copies w m + count_list modnames m"
    using copy_modules_copies [of w m env modnames target pyv p ex xp ip]
      count_list_filter_le [of _ modnames m]
    by (cases "os_listdir w target") (auto intro: order_trans)
  have "distinct modnames \<Longrightarrow> count_list modnames m \<le> 1"
    by (induction modnames) auto
  with a show ?thesis by fastforce
qed

theorem copy_modules_once_per_occurrence_witness:
  "distinct [''m'', ''pk''] \<and>
   copies (snd (copy_modules file_env [''m'', ''pk''] ''/t'' ''3.6'' None [] [] [] file_world)) ''m'' = 1 \<and>
   copies (snd (copy_modules file_env [''m'', ''pk''] ''/t'' ''3.6'' None [] [] [] file_world)) ''pk'' = 1"
proof -
  have d: "distinct [''m'', ''pk'']" by simp
  have c: "copies file_world ''m'' = 0" "copies file_world ''pk'' = 0"
    by code_simp+
  have l: "1 \<le> copies (snd (copy_modules file_env [''m'', ''pk''] ''/t'' ''3.6'' None [] [] [] file_world)) ''m''"
    "1 \<le> copies (snd (copy_modules file_env [''m'', ''pk''] ''/t'' ''3.6'' None [] [] [] file_world)) ''pk''"
    by code_simp+
  show ?thesis
    using d c l
      copy_modules_once_per_occurrence [of file_env "[''m'', ''pk'']" "''/t''" "''3.6''" None "[]" "[]" "[]" file_world "''m''"]
      copy_modules_once_per_occurrence [of file_env "[''m'', ''pk'']" "''/t''" "''3.6''" None "[]" "[]" "[]" file_world "''pk''"]
    by simp
qed


lemma listdir_dir: "os_listdir w target = Inr names \<Longrightarrow>
  \<exists>es. lookup (root w) (components target) = Some (Dir es)"
  by (auto simp: os_listdir_def split: option.splits node.splits)

lemma write_placeholder:
  assumes "os_listdir w target = Inr names"
      and "\<not> is_directory w (join2 target ''placeholder'')"
  shows "\<exists>r names'. write_file (join2 target ''placeholder'') c w = Inr (w\<lparr>root := r\<rparr>) \<and>
           lookup r (components (join2 target ''placeholder'')) = Some (File c) \<and>
           os_listdir (w\<lparr>root := r\<rparr>) target = Inr names' \<and> ''placeholder'' \<in> set names'"
proof -
  let ?cs = "components target"
  from listdir_dir [OF assms(1)] obtain es where d: "lookup (root w) ?cs = Some (Dir es)"
    by blast
  from put_into_dir [OF d, of "''placeholder''" "File c"] obtain r es' where
    r: "put (root w) (?cs @ [''placeholder'']) (File c) = Some r"
       "lookup r ?cs = Some (Dir es')" "''placeholder'' \<in> fst ` set es'"
    by blast
  have nd: "\<And>es. lookup (root w) (?cs @ [''placeholder'']) \<noteq> Some (Dir es)"
    using assms(2) by (auto simp: is_directory_def components_placeholder)
  have "write_file (join2 target ''placeholder'') c w = Inr (w\<lparr>root := r\<rparr>)"
    using nd d r(1)
    by (auto simp: write_file_def Let_def components_placeholder split: option.splits node.splits)
  moreover have "lookup r (components (join2 target ''placeholder'')) = Some (File c)"
    using lookup_put_same [OF r(1)] by (simp add: components_placeholder)
  moreover have "os_listdir (w\<lparr>root := r\<rparr>) target = Inr (map fst es')"
    using r(2) by (simp add: os_listdir_def)
  moreover have "''placeholder'' \<in> set (map fst es')"
    using r(3) by simp
  ultimately show ?thesis by blast
qed

text \<open>
  Claim C6, as stated: an empty list on a target directory writes one placeholder
  file. This fails when the target holds a directory named \<^verbatim>\<open>placeholder\<close>:
  \<^verbatim>\<open>open\<close> raises and nothing is written.
\<close>

theorem copy_modules_placeholder_counterexample:
  "os_listdir dir_world ''/t'' = Inr [''placeholder''] \<and>
   copy_modules plain_env [] ''/t'' ''3.6'' None [] [] [] dir_world =
     (Some (IsADirectoryError ''/t/placeholder''), dir_world) \<and>
   lookup (root dir_world) [''t'', ''placeholder''] = Some (Dir [])"
  by code_simp

text \<open>
  Claim C6, amended: called with an empty list on a target directory in which
  \<^verbatim>\<open>placeholder\<close> is not a directory, \<^verbatim>\<open>copy_modules\<close> returns and has written
  the placeholder file exactly once, so the target lists it; called with a non-empty
  list it writes no placeholder.
\<close>

theorem copy_modules_placeholder:
  "(os_listdir w target = Inr names \<and> \<not> is_directory w (join2 target ''placeholder'') \<longrightarrow>
      (\<exists>w' names'.
         copy_modules env [] target pyv p ex xp ip w = (None, w') \<and>
         lookup (root w') (components (join2 target ''placeholder'')) = Some (File placeholder_text) \<and>
         placeholder_writes w' = Suc (placeholder_writes w) \<and>
         os_listdir w' target = Inr names' \<and> ''placeholder'' \<in> set names')) \<and>
   (modnames \<noteq> [] \<longrightarrow>
      placeholder_writes (snd (copy_modules env modnames target pyv p ex xp ip w)) =
        placeholder_writes w)"
proof (intro conjI impI)
  assume a: "os_listdir w target = Inr names \<and> \<not> is_directory w (join2 target ''placeholder'')"
  from write_placeholder [of w target names placeholder_text] a obtain r names' where
    r: "write_file (join2 target ''placeholder'') placeholder_text w = Inr (w\<lparr>root := r\<rparr>)"
       "lookup r (components (join2 target ''placeholder'')) = Some (File placeholder_text)"
       "os_listdir (w\<lparr>root := r\<rparr>) target = Inr names'" "''placeholder'' \<in> set names'"
    by blast
  let ?w' = "w\<lparr>root := r, events := events w @ [WrotePlaceholder (join2 target ''placeholder'')]\<rparr>"
  have "copy_modules env [] target pyv p ex xp ip w = (None, ?w')"
    using a r(1) by (simp add: copy_modules_def and_then_def prim_def note_event_def)
  moreover have "lookup (root ?w') (components (join2 target ''placeholder'')) = Some (File placeholder_text)"
    using r(2) by simp
  moreover have "placeholder_writes ?w' = Suc (placeholder_writes w)"
    by (simp add: placeholder_writes_def)
  moreover have "os_listdir ?w' target = Inr names'"
    using r(3) by (simp add: os_listdir_def)
  ultimately show "\<exists>w' names'.
         copy_modules env [] target pyv p ex xp ip w = (None, w') \<and>
         lookup (root w') (components (join2 target ''placeholder'')) = Some (File placeholder_text) \<and>
         placeholder_writes w' = Suc (placeholder_writes w) \<and>
         os_listdir w' target = Inr names' \<and> ''placeholder'' \<in> set names'"
    using r(4) by blast
next
  assume ne: "modnames \<noteq> []"
  show "placeholder_writes (snd (copy_modules env modnames target pyv p ex xp ip w)) =
        placeholder_writes w"
  proof (cases "os_listdir w target")
    case (Inl e)
    then show ?thesis by (simp add: copy_modules_def)
  next
    case (Inr names)
    let ?L = "copy_loop env (ModuleCopier_init env pyv p) (map (\<lambda>f. fst (splitext f)) names)
                target ex xp (map (\<lambda>(key, val). (key, remdups (map (abspath_realpath env) val))) ip)
                modnames w"
    have "snd (copy_modules env modnames target pyv p ex xp ip w) = snd ?L"
      using ne Inr by (cases ?L) (auto simp: copy_modules_def Let_def and_then_def split: option.splits)
    then show ?thesis
      using copy_loop_copies [of env "ModuleCopier_init env pyv p" _ target ex xp _ modnames w]
      by simp
  qed
qed

theorem copy_modules_placeholder_witness:
  "os_listdir file_world ''/t'' = Inr [''old.py''] \<and>
   \<not> is_directory file_world (join2 ''/t'' ''placeholder'') \<and>
   fst (copy_modules file_env [] ''/t'' ''3.6'' None [] [] [] file_world) = None \<and>
   os_listdir (snd (copy_modules file_env [] ''/t'' ''3.6'' None [] [] [] file_world)) ''/t'' =
     Inr [''old.py'', ''placeholder''] \<and>
   placeholder_writes (snd (copy_modules file_env [] ''/t'' ''3.6'' None [] [] [] file_world)) = 1 \<and>
   [''m''] \<noteq> [] \<and>
   placeholder_writes (snd (copy_modules file_env [''m''] ''/t'' ''3.6'' None [] [] [] file_world)) = 0"
proof -
  have h1: "os_listdir file_world ''/t'' = Inr [''old.py'']"
    by code_simp
  have h2: "\<not> is_directory file_world (join2 ''/t'' ''placeholder'')"
    by code_simp
  have p0: "placeholder_writes file_world = 0"
    by code_simp
  have l: "os_listdir (snd (copy_modules file_env [] ''/t'' ''3.6'' None [] [] [] file_world)) ''/t'' =
     Inr [''old.py'', ''placeholder'']"
    by code_simp
  note t = copy_modules_placeholder
    [of file_world "''/t''" "[''old.py'']" file_env "''3.6''" None "[]" "[]" "[]" "[''m'']"]
  have a: "fst (copy_modules file_env [] ''/t'' ''3.6'' None [] [] [] file_world) = None \<and>
    placeholder_writes (snd (copy_modules file_env [] ''/t'' ''3.6'' None [] [] [] file_world)) = 1"
    using t [THEN conjunct1] h1 h2 p0 by auto
  have b: "placeholder_writes (snd (copy_modules file_env [''m''] ''/t'' ''3.6'' None [] [] [] file_world)) = 0"
    using t [THEN conjunct2] p0 by simp
  from h1 h2 l a b show ?thesis by simp
qed

subsection \<open>Directory packages\<close>

lemma find_dest_remap:
  "find_dest env extra pkgdir target modname = Inr dest \<Longrightarrow>
     dest = remap_dest env extra pkgdir target modname"
proof (induction extra)
  case Nil
  then show ?case by (simp add: remap_dest_def)
next
  case (Cons kv extra)
  obtain k v where kv: "kv = (k, v)" by (cases kv) auto
  show ?case
  proof (cases "samefile env k pkgdir")
    case (Inl e)
    with Cons.prems kv show ?thesis by simp
  next
    case (Inr b)
    with Cons kv show ?thesis by (cases b) (auto simp: remap_dest_def)
  qed
qed

lemma find_dest_total:
  "\<forall>(key, val)\<in>set extra. \<exists>b. samefile env key pkgdir = Inr b \<Longrightarrow>
     find_dest env extra pkgdir target modname = Inr (remap_dest env extra pkgdir target modname)"
proof (induction extra)
  case Nil
  then show ?case by (simp add: remap_dest_def)
next
  case (Cons kv extra)
  obtain k v where kv: "kv = (k, v)" by (cases kv) auto
  from Cons.prems kv obtain b where b: "samefile env k pkgdir = Inr b" by auto
  with Cons kv show ?case by (cases b) (auto simp: remap_dest_def)
qed

lemma copytree_result:
  "shutil_copytree ig src dst w = Inr w' \<Longrightarrow>
     \<exists>tree. lookup (root w) (components src) = Some tree \<and> is_dir tree \<and>
            lookup (root w) (components dst) = None \<and>
            lookup (root w') (components dst) = Some (filter_copy ig src tree)"
  by (auto simp: shutil_copytree_def lookup_put_same split: option.splits node.splits if_splits)

lemma copy_package_result:
  assumes "copy_package env mc modname target exclude extra ignore fl w = (None, w')"
  shows "\<exists>tree. is_dir tree \<and>
           find_dest env extra (fst (os_path_split fl)) target modname =
             Inr (remap_dest env extra (fst (os_path_split fl)) target modname) \<and>
           lookup (root w) (components (fst (os_path_split fl))) = Some tree \<and>
           lookup (root w) (components (remap_dest env extra (fst (os_path_split fl)) target modname)) = None \<and>
           lookup (root w') (components (remap_dest env extra (fst (os_path_split fl)) target modname)) =
             Some (filter_copy
                     (if exclude \<noteq> []
                      then copytree_ignore_callback env exclude (fst (os_path_split fl)) modname
                      else ignore_patterns [''*.pyc''])
                     (fst (os_path_split fl)) tree)"
proof -
  let ?pkgdir = "fst (os_path_split fl)"
  let ?ig = "if exclude \<noteq> [] then copytree_ignore_callback env exclude ?pkgdir modname
             else ignore_patterns [''*.pyc'']"
  from assms obtain dest w1 where
    d: "find_dest env extra ?pkgdir target modname = Inr dest" and
    c: "shutil_copytree ?ig ?pkgdir dest w = Inr w1" and
    w': "w' = w1\<lparr>events := events w1 @ [CopiedUnit modname]\<rparr>"
    by (auto simp: copy_package_def Let_def and_then_def prim_def note_event_def
        split: prod.splits if_splits sum.splits)
  have dest: "dest = remap_dest env extra ?pkgdir target modname"
    using d by (rule find_dest_remap)
  from copytree_result [OF c] obtain tree where
    "is_dir tree" "lookup (root w) (components ?pkgdir) = Some tree"
    "lookup (root w) (components dest) = None"
    "lookup (root w1) (components dest) = Some (filter_copy ?ig ?pkgdir tree)"
    by blast
  with d dest w' show ?thesis by auto
qed


lemma filter_copy_is_dir: "is_dir tree \<Longrightarrow> is_dir (filter_copy ig src tree)"
  by (cases tree) auto

lemma copy_package_call:
  "find_spec env modname (self_path mc) = Some (ModuleSpec (Some (FileLoader fl True))) \<Longrightarrow>
     ModuleCopier_copy env mc modname target exclude extra ignore w =
       copy_package env mc modname target exclude extra ignore fl w"
  by (simp add: ModuleCopier_copy_def)

text \<open>
  Claim C9. The destination the code computes for a directory package is the one of
  the specification, \<open>remap_dest\<close>, whenever \<^verbatim>\<open>samefile\<close> answers for every
  key; identity is what \<^verbatim>\<open>samefile\<close> says, not the equality of the path strings.
  When the copy of a package found by a file loader returns, that destination did not
  exist before and is a directory afterwards.
\<close>

theorem package_destination:
  "((\<forall>(key, val)\<in>set extra. \<exists>b. samefile env key pkgdir = Inr b) \<longrightarrow>
      find_dest env extra pkgdir target modname =
        Inr (remap_dest env extra pkgdir target modname)) \<and>
   (find_spec env modname (self_path mc) = Some (ModuleSpec (Some (FileLoader fl True))) \<and>
    ModuleCopier_copy env mc modname target exclude extra ignore w = (None, w') \<longrightarrow>
      find_dest env extra (fst (os_path_split fl)) target modname =
        Inr (remap_dest env extra (fst (os_path_split fl)) target modname) \<and>
      lookup (root w)
        (components (remap_dest env extra (fst (os_path_split fl)) target modname)) = None \<and>
      is_directory w' (remap_dest env extra (fst (os_path_split fl)) target modname))"
proof (intro conjI impI)
  assume "\<forall>(key, val)\<in>set extra. \<exists>b. samefile env key pkgdir = Inr b"
  then show "find_dest env extra pkgdir target modname =
        Inr (remap_dest env extra pkgdir target modname)"
    by (rule find_dest_total)
next
  assume a: "find_spec env modname (self_path mc) = Some (ModuleSpec (Some (FileLoader fl True))) \<and>
    ModuleCopier_copy env mc modname target exclude extra ignore w = (None, w')"
  then have "copy_package env mc modname target exclude extra ignore fl w = (None, w')"
    using copy_package_call [of env modname mc fl target exclude extra ignore w] by simp
  from copy_package_result [OF this] obtain tree where t:
    "is_dir tree"
    "find_dest env extra (fst (os_path_split fl)) target modname =
       Inr (remap_dest env extra (fst (os_path_split fl)) target modname)"
    "lookup (root w) (components (remap_dest env extra (fst (os_path_split fl)) target modname)) = None"
    "lookup (root w') (components (remap_dest env extra (fst (os_path_split fl)) target modname)) =
       Some (filter_copy
               (if exclude \<noteq> []
                then copytree_ignore_callback env exclude (fst (os_path_split fl)) modname
                else ignore_patterns [''*.pyc''])
               (fst (os_path_split fl)) tree)"
    by blast
  show "find_dest env extra (fst (os_path_split fl)) target modname =
        Inr (remap_dest env extra (fst (os_path_split fl)) target modname)"
    by (rule t(2))
  show "lookup (root w)
        (components (remap_dest env extra (fst (os_path_split fl)) target modname)) = None"
    by (rule t(3))
  let ?staged = "filter_copy
               (if exclude \<noteq> []
                then copytree_ignore_callback env exclude (fst (os_path_split fl)) modname
                else ignore_patterns [''*.pyc''])
               (fst (os_path_split fl)) tree"
  have "is_dir ?staged"
    by (rule filter_copy_is_dir [OF t(1)])
  then obtain es where "?staged = Dir es"
    by (cases ?staged) auto
  with t(4) show "is_directory w' (remap_dest env extra (fst (os_path_split fl)) target modname)"
    by (simp add: is_directory_def)
qed

theorem package_destination_witness:
  "samefile file_env ''/lib'' ''/lib/pk'' = Inr False \<and>
   samefile file_env ''/lib/pk/'' ''/lib/pk'' = Inr True \<and>
   ''/lib/pk/'' \<noteq> ''/lib/pk'' \<and>
   find_dest file_env [(''/lib'', ''x''), (''/lib/pk/'', ''win'')] ''/lib/pk'' ''/t'' ''pk'' =
     Inr ''/t/win/pk'' \<and>
   find_dest file_env [(''/lib'', ''x'')] ''/lib/pk'' ''/t'' ''pk'' = Inr ''/t/pk'' \<and>
   find_spec file_env ''pk'' (self_path (ModuleCopier_init file_env ''3.6'' None)) =
     Some (ModuleSpec (Some (FileLoader ''/lib/pk/__init__.py'' True))) \<and>
   fst (ModuleCopier_copy file_env (ModuleCopier_init file_env ''3.6'' None) ''pk'' ''/t'' []
          [(''/lib'', ''x''), (''/lib/pk/'', ''win'')] [] file_world) = None \<and>
   is_directory
     (snd (ModuleCopier_copy file_env (ModuleCopier_init file_env ''3.6'' None) ''pk'' ''/t'' []
             [(''/lib'', ''x''), (''/lib/pk/'', ''win'')] [] file_world))
     ''/t/win/pk''"
proof -
  let ?mc = "ModuleCopier_init file_env ''3.6'' None"
  let ?extra = "[(''/lib'', ''x''), (''/lib/pk/'', ''win'')]"
  let ?run = "ModuleCopier_copy file_env ?mc ''pk'' ''/t'' [] ?extra [] file_world"
  have s1: "samefile file_env ''/lib'' ''/lib/pk'' = Inr False"
    by code_simp
  have s2: "samefile file_env ''/lib/pk/'' ''/lib/pk'' = Inr True"
    by code_simp
  have ne: "''/lib/pk/'' \<noteq> ''/lib/pk''"
    by simp
  have t1: "\<forall>(key, val)\<in>set ?extra. \<exists>b. samefile file_env key ''/lib/pk'' = Inr b"
    using s1 s2 by auto
  have t2: "\<forall>(key, val)\<in>set [(''/lib'', ''x'')]. \<exists>b. samefile file_env key ''/lib/pk'' = Inr b"
    using s1 by auto
  have r1: "remap_dest file_env ?extra ''/lib/pk'' ''/t'' ''pk'' = ''/t/win/pk''"
    by code_simp
  have r2: "remap_dest file_env [(''/lib'', ''x'')] ''/lib/pk'' ''/t'' ''pk'' = ''/t/pk''"
    by code_simp
  have pd: "fst (os_path_split ''/lib/pk/__init__.py'') = ''/lib/pk''"
    by code_simp
  have h1: "find_spec file_env ''pk'' (self_path ?mc) =
     Some (ModuleSpec (Some (FileLoader ''/lib/pk/__init__.py'' True)))"
    by code_simp
  have f: "fst ?run = None"
    by code_simp
  then have h2: "?run = (None, snd ?run)"
    by (metis prod.collapse)
  have d1: "find_dest file_env ?extra ''/lib/pk'' ''/t'' ''pk'' = Inr ''/t/win/pk''"
    using package_destination [THEN conjunct1, of ?extra file_env "''/lib/pk''" "''/t''" "''pk''"] t1 r1
    by simp
  have d2: "find_dest file_env [(''/lib'', ''x'')] ''/lib/pk'' ''/t'' ''pk'' = Inr ''/t/pk''"
    using package_destination [THEN conjunct1, of "[(''/lib'', ''x'')]" file_env "''/lib/pk''"
        "''/t''" "''pk''"] t2 r2
    by simp
  have "is_directory (snd ?run)
          (remap_dest file_env ?extra (fst (os_path_split ''/lib/pk/__init__.py'')) ''/t'' ''pk'')"
    using package_destination [THEN conjunct2, of file_env "''pk''" ?mc "''/lib/pk/__init__.py''"
        "''/t''" "[]" ?extra "[]" file_world "snd ?run"] h1 h2
    by blast
  then have i: "is_directory (snd ?run) ''/t/win/pk''"
    by (simp add: pd r1)
  from s1 s2 ne d1 d2 h1 f i show ?thesis by blast
qed


lemma fnmatchcase_literal:
  "\<forall>c\<in>set p. c \<notin> {CHR ''*'', CHR ''?'', CHR ''[''} \<Longrightarrow> fnmatchcase s p \<longleftrightarrow> s = p"
  by (induction s p rule: fnmatchcase.induct) (auto split: list.splits)

lemma fnmatchcase_star_suffix: "fnmatchcase t ps \<Longrightarrow> fnmatchcase (xs @ t) (CHR ''*'' # ps)"
  by (induction xs) auto

lemma fnmatchcase_pyc: "endswith s ''.pyc'' \<Longrightarrow> fnmatchcase s ''*.pyc''"
proof -
  assume "endswith s ''.pyc''"
  then obtain xs where s: "s = xs @ ''.pyc''" by (auto simp: endswith_iff)
  have "fnmatchcase ''.pyc'' ''.pyc''" by (simp add: fnmatchcase_literal)
  then show ?thesis unfolding s by (rule fnmatchcase_star_suffix)
qed

lemma basename_suffix: "\<exists>pre. p = pre @ basename p"
proof -
  have "rev p = takeWhile (\<lambda>c. c \<noteq> CHR ''/'') (rev p) @ dropWhile (\<lambda>c. c \<noteq> CHR ''/'') (rev p)"
    by simp
  then have "p = rev (dropWhile (\<lambda>c. c \<noteq> CHR ''/'') (rev p)) @ basename p"
    unfolding basename_def by (metis rev_append rev_rev_ident)
  then show ?thesis ..
qed

lemma endswith_basename: "endswith (basename p) suf \<Longrightarrow> endswith p suf"
  by (metis append.assoc basename_suffix endswith_iff)

lemma basename_join2:
  assumes "CHR ''/'' \<notin> set f"
  shows "basename (join2 t f) = f"
proof -
  have f: "take 1 f \<noteq> ''/''"
    using assms by (cases f) auto
  have tw: "takeWhile (\<lambda>c. c \<noteq> CHR ''/'') (rev f) = rev f"
    using assms by (auto simp: takeWhile_eq_all_conv)
  have "\<exists>xs. join2 t f = xs @ f \<and> (xs = [] \<or> last xs = CHR ''/'')"
    using f by (auto simp: join2_def)
  then obtain xs where xs: "join2 t f = xs @ f" "xs = [] \<or> last xs = CHR ''/''"
    by blast
  have "takeWhile (\<lambda>c. c \<noteq> CHR ''/'') (rev f @ rev xs) = rev f"
  proof (cases "xs = []")
    case True
    then show ?thesis using tw by simp
  next
    case False
    with xs(2) have "hd (rev xs) = CHR ''/''" by (simp add: hd_rev)
    moreover from False have "rev xs \<noteq> []" by simp
    ultimately have "takeWhile (\<lambda>c. c \<noteq> CHR ''/'') (rev xs) = []"
      by (cases "rev xs") auto
    then show ?thesis using assms by (subst takeWhile_append2) auto
  qed
  then show ?thesis by (simp add: basename_def xs(1))
qed

lemma ignore_patterns_pyc:
  "n \<in> set names \<Longrightarrow> endswith n ''.pyc'' \<Longrightarrow> n \<in> set (ignore_patterns [''*.pyc''] d names)"
  using fnmatchcase_pyc [of n]
  by (simp add: ignore_patterns_def fnmatch_filter_def del: fnmatchcase.simps)

lemma callback_pyc:
  assumes "n \<in> set names" "endswith n ''.pyc''"
      and "\<forall>t. \<forall>f\<in>set names. basename (normalize_path env (join2 t f)) = f"
  shows "n \<in> set (copytree_ignore_callback env excludes pkgdir modname d names)"
proof -
  let ?t = "join2 (join2 ''pkgs'' modname) (relpath env d pkgdir)"
  let ?p = "normalize_path env (join2 ?t n)"
  have b: "basename ?p = n" using assms(1,3) by blast
  then have "endswith ?p ''.pyc''"
    using assms(2) endswith_basename [of ?p "''.pyc''"] by simp
  then have "fnmatchcase ?p ''*.pyc''" by (rule fnmatchcase_pyc)
  then have "?p \<in> set (fnmatch_filter (map (\<lambda>fname. normalize_path env (join2 ?t fname)) names) ''*.pyc'')"
    using assms(1) by (simp add: fnmatch_filter_def)
  then have "basename ?p \<in> basename ` set (fnmatch_filter (map (\<lambda>fname. normalize_path env (join2 ?t fname)) names) ''*.pyc'')"
    by (rule imageI)
  then show ?thesis
    unfolding b by (auto simp: copytree_ignore_callback_def Let_def)
qed

lemma filter_copy_no_pyc:
  assumes "\<And>d names n. set names \<subseteq> N \<Longrightarrow> n \<in> set names \<Longrightarrow> endswith n ''.pyc'' \<Longrightarrow>
             n \<in> set (ig d names)"
      and "set (entry_names tree) \<subseteq> N"
  shows "no_pyc (filter_copy ig src tree)"
  using assms
proof (induction ig src tree rule: filter_copy.induct)
  case (1 ig src c)
  then show ?case by simp
next
  case (2 ig src es)
  have names: "set (map fst es) \<subseteq> N"
    using "2.prems"(2) by auto
  have "\<And>e. e \<in> set es \<Longrightarrow> fst e \<notin> set (ig src (map fst es)) \<Longrightarrow>
          \<not> endswith (fst e) ''.pyc'' \<and> no_pyc (filter_copy ig (join2 src (fst e)) (snd e))"
  proof -
    fix e assume e: "e \<in> set es" "fst e \<notin> set (ig src (map fst es))"
    have "\<not> endswith (fst e) ''.pyc''"
      using "2.prems"(1) [OF names, of "fst e" src] e by auto
    moreover have "set (entry_names (snd e)) \<subseteq> N"
      using "2.prems"(2) e(1) by auto
    then have "no_pyc (filter_copy ig (join2 src (fst e)) (snd e))"
      using "2.IH" [of e] "2.prems"(1) e by simp
    ultimately show "\<not> endswith (fst e) ''.pyc'' \<and> no_pyc (filter_copy ig (join2 src (fst e)) (snd e))"
      by blast
  qed
  then show ?case by auto
qed


text \<open>
  Directory packages on the filesystem: when the copy returns, with or without
  exclusion patterns, the tree staged at the destination has no entry whose name ends
  in \<^verbatim>\<open>.pyc\<close>. With exclusion patterns this needs \<^verbatim>\<open>normalize_path\<close> to
  keep the last component of the paths of the package's entries.
\<close>

lemma directory_package_no_pyc:
  assumes "find_spec env modname (self_path mc) = Some (ModuleSpec (Some (FileLoader fl True)))"
      and "ModuleCopier_copy env mc modname target exclude extra ignore w = (None, w')"
      and "lookup (root w) (components (fst (os_path_split fl))) = Some tree"
      and "exclude \<noteq> [] \<longrightarrow>
             (\<forall>t. \<forall>f\<in>set (entry_names tree). basename (normalize_path env (join2 t f)) = f)"
  shows "\<exists>staged.
           lookup (root w')
             (components (remap_dest env extra (fst (os_path_split fl)) target modname)) =
             Some staged \<and>
           no_pyc staged"
proof -
  let ?pkgdir = "fst (os_path_split fl)"
  let ?ig = "if exclude \<noteq> [] then copytree_ignore_callback env exclude ?pkgdir modname
             else ignore_patterns [''*.pyc'']"
  from assms(1,2) have "copy_package env mc modname target exclude extra ignore fl w = (None, w')"
    using copy_package_call [of env modname mc fl target exclude extra ignore w] by simp
  from copy_package_result [OF this] assms(3) have
    st: "lookup (root w') (components (remap_dest env extra ?pkgdir target modname)) =
           Some (filter_copy ?ig ?pkgdir tree)"
    by auto
  have "no_pyc (filter_copy ?ig ?pkgdir tree)"
  proof (rule filter_copy_no_pyc [where N = "set (entry_names tree)"])
    fix d names n
    assume n: "set names \<subseteq> set (entry_names tree)" "n \<in> set names" "endswith n ''.pyc''"
    show "n \<in> set (?ig d names)"
    proof (cases "exclude \<noteq> []")
      case True
      with assms(4) n(1) have "\<forall>t. \<forall>f\<in>set names. basename (normalize_path env (join2 t f)) = f"
        by blast
      with True n(2,3) show ?thesis
        by (simp add: callback_pyc)
    next
      case False
      with n(2,3) show ?thesis
        by (simp add: ignore_patterns_pyc)
    qed
  qed simp
  with st show ?thesis by blast
qed

lemma directory_package_no_pyc_example:
  "lookup (root (snd (ModuleCopier_copy file_env (ModuleCopier_init file_env ''3.6'' None) ''pk''
                        ''/t'' [''pkgs/pk/sub/e.py''] [] [] file_world)))
     (components ''/t/pk'') =
     Some (Dir [(''__init__.py'', File ''i''), (''sub'', Dir [])]) \<and>
   lookup (root (snd (ModuleCopier_copy file_env (ModuleCopier_init file_env ''3.6'' None) ''pk''
                        ''/t'' [] [] [] file_world)))
     (components ''/t/pk'') =
     Some (Dir [(''__init__.py'', File ''i''), (''sub'', Dir [(''e.py'', File ''e'')])])"
  by code_simp

text \<open>The archive path passes no callback to \<^verbatim>\<open>copytree\<close>: it would copy the
  extracted tree as it is.\<close>

lemma filter_copy_no_ignore: "filter_copy no_ignore src t = t"
proof (induction no_ignore src t rule: filter_copy.induct)
  case (1 src c)
  then show ?case by simp
next
  case (2 src es)
  have "map (\<lambda>e. (fst e, filter_copy no_ignore (join2 src (fst e)) (snd e))) es = map (\<lambda>e. e) es"
    using 2 by (intro map_cong) (auto simp: no_ignore_def)
  then show ?case by (simp add: no_ignore_def)
qed



end
